theory Spec2Isabelle
  imports Complex_Main "HOL-Library.Multiset"
begin

text \<open>
  A model of the WebSocket communication hub: the messages table with the offline queue
  and the message store on it, the connection pool and the connection manager, the hub's
  direct delivery, the message handler with the \<open>message\<close> event of the application, and
  the room manager. Each function takes the state it works on and returns the new state
  next to its result; clock readings are arguments; a raise is a value. Calls are taken one
  at a time.
\<close>

section \<open>Python values\<close>

text \<open>
  Messages arrive as JSON objects and are handled as Python dictionaries. A value is one
  of the JSON shapes (floats are the finite ones, kept as the rational they denote); a
  dictionary is kept as an association list in insertion order and read with \<open>map_of\<close>.
\<close>

datatype pyval =
    PyNone
  | PyBool bool
  | PyInt int
  | PyFloat rat
  | PyStr string
  | PyList "pyval list"
  | PyDict "(string \<times> pyval) list"

datatype py_error = ValueError | TypeError | ProgrammingError | OverflowError

text \<open>Python truthiness, as used by \<open>if x:\<close> and \<open>not x\<close>.\<close>

fun truthy :: "pyval \<Rightarrow> bool" where
  "truthy PyNone = False"
| "truthy (PyBool b) = b"
| "truthy (PyInt i) = (i \<noteq> 0)"
| "truthy (PyFloat r) = (r \<noteq> 0)"
| "truthy (PyStr s) = (s \<noteq> [])"
| "truthy (PyList xs) = (xs \<noteq> [])"
| "truthy (PyDict kvs) = (kvs \<noteq> [])"

text \<open>\<open>d.get(k)\<close> and \<open>d.get(k, default)\<close>.\<close>

definition dict_get :: "(string \<times> pyval) list \<Rightarrow> string \<Rightarrow> pyval" where
  "dict_get d k = (case map_of d k of None \<Rightarrow> PyNone | Some v \<Rightarrow> v)"



text \<open>
  A value used as a dictionary key: lists and dictionaries cannot be one (\<open>TypeError\<close>),
  and \<open>True\<close>, \<open>1\<close> and \<open>1.0\<close> are the same key. \<open>dict_key\<close> picks one value for each
  key; a dictionary keyed by Python values is held as a map on these.
\<close>

definition hashable :: "pyval \<Rightarrow> bool" where
  "hashable v = (case v of PyList _ \<Rightarrow> False | PyDict _ \<Rightarrow> False | _ \<Rightarrow> True)"

fun dict_key :: "pyval \<Rightarrow> pyval" where
  "dict_key (PyBool b) = PyInt (if b then 1 else 0)"
| "dict_key (PyFloat r) = (if of_int \<lfloor>r\<rfloor> = r then PyInt \<lfloor>r\<rfloor> else PyFloat r)"
| "dict_key v = v"

section \<open>SQLite values\<close>

text \<open>
  What a column holds: NULL, a 64-bit integer, a real or a text. \<open>bind_param\<close> is the
  \<open>sqlite3\<close> module handing a Python value to a statement: a list or a dictionary is
  refused with \<open>ProgrammingError\<close>, an integer outside 64 bits with \<open>OverflowError\<close>.
\<close>

datatype sqlval = SqlNull | SqlInt int | SqlReal rat | SqlText string

fun bind_param :: "pyval \<Rightarrow> py_error + sqlval" where
  "bind_param PyNone = Inr SqlNull"
| "bind_param (PyBool b) = Inr (SqlInt (if b then 1 else 0))"
| "bind_param (PyInt i) =
     (if - (2 ^ 63) \<le> i \<and> i < 2 ^ 63 then Inr (SqlInt i) else Inl OverflowError)"
| "bind_param (PyFloat r) = Inr (SqlReal r)"
| "bind_param (PyStr s) = Inr (SqlText s)"
| "bind_param (PyList xs) = Inl ProgrammingError"
| "bind_param (PyDict kvs) = Inl ProgrammingError"

text \<open>Reading a column back into Python.\<close>

fun py_of_sql :: "sqlval \<Rightarrow> pyval" where
  "py_of_sql SqlNull = PyNone"
| "py_of_sql (SqlInt i) = PyInt i"
| "py_of_sql (SqlReal r) = PyFloat r"
| "py_of_sql (SqlText s) = PyStr s"

text \<open>
  The columns \<open>sender_id\<close> and \<open>recipient_id\<close> are declared INTEGER. A value stored in
  such a column, or compared with it, is first converted: a real that is a whole number
  strictly inside the 64-bit range becomes that integer, and a text that SQLite reads as a
  number becomes that number. How SQLite reads a text as a number (spaces, signs,
  fractions, exponents, rounding) is its own business: the reader is a parameter \<open>rd\<close> of
  the model, giving the converted value or \<open>None\<close> for a text that is no number.
\<close>

type_synonym literal_reader = "string \<Rightarrow> sqlval option"

definition integer_affinity :: "literal_reader \<Rightarrow> sqlval \<Rightarrow> sqlval" where
  "integer_affinity rd v =
     (case v of
        SqlText s \<Rightarrow> (case rd s of None \<Rightarrow> SqlText s | Some n \<Rightarrow> n)
      | SqlReal r \<Rightarrow>
          (if of_int \<lfloor>r\<rfloor> = r \<and> - (2 ^ 63) < \<lfloor>r\<rfloor> \<and> \<lfloor>r\<rfloor> < 2 ^ 63 - 1
           then SqlInt \<lfloor>r\<rfloor> else SqlReal r)
      | _ \<Rightarrow> v)"

text \<open>
  The comparison \<open>=\<close>: NULL equals nothing, numbers are compared by value whatever their
  storage class, texts by their characters, and a number never equals a text.
\<close>

fun sql_eq :: "sqlval \<Rightarrow> sqlval \<Rightarrow> bool" where
  "sql_eq (SqlInt i) (SqlInt j) = (i = j)"
| "sql_eq (SqlInt i) (SqlReal r) = (of_int i = r)"
| "sql_eq (SqlReal r) (SqlInt i) = (r = of_int i)"
| "sql_eq (SqlReal r) (SqlReal q) = (r = q)"
| "sql_eq (SqlText s) (SqlText t) = (s = t)"
| "sql_eq _ _ = False"

text \<open>
  Every theorem below holds for every reader. A closed example needs one: \<open>integer_reader\<close>
  reads a decimal integer within 64 bits, with an optional sign, as that integer, and no
  other text. No example below stores or looks up a text id, so none depends on it.
\<close>

fun decimal :: "nat \<Rightarrow> string \<Rightarrow> nat option" where
  "decimal n [] = Some n"
| "decimal n (c # cs) =
     (if 48 \<le> (of_char c :: nat) \<and> (of_char c :: nat) \<le> 57
      then decimal (10 * n + (of_char c - 48)) cs else None)"

definition signed_decimal :: "string \<Rightarrow> int option" where
  "signed_decimal s =
     (case s of
        [] \<Rightarrow> None
      | c # cs \<Rightarrow>
          if c = CHR ''-'' then (if cs = [] then None else map_option (\<lambda>n. - int n) (decimal 0 cs))
          else if c = CHR ''+'' then (if cs = [] then None else map_option int (decimal 0 cs))
          else map_option int (decimal 0 s))"

definition integer_reader :: literal_reader where
  "integer_reader s =
     (case signed_decimal s of
        None \<Rightarrow> None
      | Some i \<Rightarrow> if - (2 ^ 63) \<le> i \<and> i < 2 ^ 63 then Some (SqlInt i) else None)"

section \<open>The messages table (storage/database.py)\<close>

text \<open>
  One row of \<open>messages\<close>. \<open>id\<close> is the AUTOINCREMENT key (named \<open>msg_id\<close> here),
  \<open>created_at\<close> and \<open>delivered_at\<close> are readings of \<open>CURRENT_TIMESTAMP\<close> in seconds,
  \<open>content\<close> is the value whose JSON text the column holds (\<open>None\<close> for NULL). The table
  is the list of its rows in rowid order, together with the largest rowid ever handed out
  (\<open>sqlite_sequence\<close>). A call that raises has committed nothing: the table stays as it
  was.
\<close>

record msg_row =
  msg_id :: nat
  sender_id :: sqlval
  recipient_id :: sqlval
  room_id :: "string option"
  message_type :: string
  content :: "pyval option"
  delivered :: bool
  created_at :: nat
  delivered_at :: "nat option"

record msg_db =
  messages :: "msg_row list"
  seq :: nat

definition empty_db :: msg_db where
  "empty_db = \<lparr>messages = [], seq = 0\<rparr>"

text \<open>The rowid of the next INSERT: one more than every rowid that ever existed.\<close>

fun max_id :: "nat \<Rightarrow> msg_row list \<Rightarrow> nat" where
  "max_id s [] = s"
| "max_id s (r # rs) = max (msg_id r) (max_id s rs)"

definition next_id :: "msg_db \<Rightarrow> nat" where
  "next_id db = Suc (max_id (seq db) (messages db))"

text \<open>\<open>WHERE recipient_id = ?\<close>, for the bound value \<open>p\<close>.\<close>

definition for_recipient :: "literal_reader \<Rightarrow> sqlval \<Rightarrow> msg_row \<Rightarrow> bool" where
  "for_recipient rd p r = sql_eq (recipient_id r) (integer_affinity rd p)"

text \<open>\<open>WHERE recipient_id = ? AND delivered = 0\<close>.\<close>

definition undelivered_for :: "literal_reader \<Rightarrow> sqlval \<Rightarrow> msg_row list \<Rightarrow> msg_row list" where
  "undelivered_for rd p rows = filter (\<lambda>r. for_recipient rd p r \<and> \<not> delivered r) rows"

text \<open>
  \<open>... ORDER BY created_at ASC\<close>: the selected rows sorted by creation time; rows with
  equal creation time stay in rowid order.
\<close>

definition select_undelivered :: "literal_reader \<Rightarrow> msg_db \<Rightarrow> sqlval \<Rightarrow> msg_row list" where
  "select_undelivered rd db p = sort_key created_at (undelivered_for rd p (messages db))"

section \<open>Offline queue (messaging/offline\_queue.py)\<close>

record queued_message =
  q_id :: nat
  q_sender_id :: pyval
  q_content :: pyval
  q_created_at :: nat

text \<open>
  \<open>add_message\<close>: count the recipient's undelivered rows; at or above \<open>max_messages\<close>
  delete the row whose id is the first of the recipient's undelivered rows by creation
  time (no row when there is none); then insert the new row. Returns the new id. The
  recipient is bound by the first statement, the sender by the INSERT; a refused value
  raises before the commit.
\<close>

definition delete_oldest :: "literal_reader \<Rightarrow> msg_db \<Rightarrow> sqlval \<Rightarrow> msg_row list" where
  "delete_oldest rd db p =
     (case select_undelivered rd db p of
        [] \<Rightarrow> messages db
      | oldest # _ \<Rightarrow> filter (\<lambda>r. msg_id r \<noteq> msg_id oldest) (messages db))"

definition add_message ::
  "literal_reader \<Rightarrow> int \<Rightarrow> msg_db \<Rightarrow> pyval \<Rightarrow> pyval \<Rightarrow> pyval \<Rightarrow> nat
     \<Rightarrow> py_error + (nat \<times> msg_db)" where
  "add_message rd max_messages db user message sender now =
     (case bind_param user of
        Inl e \<Rightarrow> Inl e
      | Inr p \<Rightarrow>
          (let count = length (undelivered_for rd p (messages db));
               rows1 = (if int count \<ge> max_messages then delete_oldest rd db p
                        else messages db)
           in case bind_param sender of
                Inl e \<Rightarrow> Inl e
              | Inr s \<Rightarrow>
                  (let message_id = next_id db;
                       row = \<lparr>msg_id = message_id, sender_id = integer_affinity rd s,
                              recipient_id = integer_affinity rd p, room_id = None,
                              message_type = ''offline'', content = Some message,
                              delivered = False, created_at = now, delivered_at = None\<rparr>
                   in Inr (message_id, \<lparr>messages = rows1 @ [row], seq = message_id\<rparr>))))"

text \<open>
  \<open>get_messages\<close>: the recipient's undelivered rows by creation time, each turned into
  a dictionary; a NULL content reads as the empty dictionary. The call opens the
  database, runs one SELECT and closes it: the table it leaves is returned with the
  result.
\<close>

definition row_content :: "msg_row \<Rightarrow> pyval" where
  "row_content r = (case content r of None \<Rightarrow> PyDict [] | Some c \<Rightarrow> c)"

definition row_message :: "msg_row \<Rightarrow> queued_message" where
  "row_message r =
     \<lparr>q_id = msg_id r, q_sender_id = py_of_sql (sender_id r), q_content = row_content r,
      q_created_at = created_at r\<rparr>"

definition get_messages ::
  "literal_reader \<Rightarrow> msg_db \<Rightarrow> pyval \<Rightarrow> py_error + (queued_message list \<times> msg_db)" where
  "get_messages rd db user =
     (case bind_param user of
        Inl e \<Rightarrow> Inl e
      | Inr p \<Rightarrow> Inr (map row_message (select_undelivered rd db p), db))"

text \<open>\<open>mark_delivered\<close>: \<open>UPDATE messages SET delivered = 1, delivered_at = now WHERE id = ?\<close>.\<close>

definition mark_delivered :: "msg_db \<Rightarrow> nat \<Rightarrow> nat \<Rightarrow> msg_db" where
  "mark_delivered db message_id now =
     db\<lparr>messages :=
          map (\<lambda>r. if msg_id r = message_id
                    then r\<lparr>delivered := True, delivered_at := Some now\<rparr> else r)
              (messages db)\<rparr>"

definition get_queue_size ::
  "literal_reader \<Rightarrow> msg_db \<Rightarrow> pyval \<Rightarrow> py_error + (nat \<times> msg_db)" where
  "get_queue_size rd db user =
     (case bind_param user of
        Inl e \<Rightarrow> Inl e
      | Inr p \<Rightarrow> Inr (length (undelivered_for rd p (messages db)), db))"

text \<open>The ids of all rows not yet delivered, whoever the recipient.\<close>

definition undelivered_ids :: "msg_db \<Rightarrow> nat set" where
  "undelivered_ids db = set (map msg_id (filter (\<lambda>r. \<not> delivered r) (messages db)))"

text \<open>
  The calls of the queue's interface, and a run of them on one database; a call that
  raises leaves the table as it was and the run goes on.
\<close>

datatype queue_op =
    AddMessage pyval pyval pyval nat
  | GetMessages pyval
  | MarkDelivered nat nat
  | GetQueueSize pyval

fun queue_step :: "literal_reader \<Rightarrow> int \<Rightarrow> msg_db \<Rightarrow> queue_op \<Rightarrow> msg_db" where
  "queue_step rd n db (AddMessage u m s now) =
     (case add_message rd n db u m s now of Inl e \<Rightarrow> db | Inr (i, db') \<Rightarrow> db')"
| "queue_step rd n db (GetMessages u) =
     (case get_messages rd db u of Inl e \<Rightarrow> db | Inr (msgs, db') \<Rightarrow> db')"
| "queue_step rd n db (MarkDelivered i now) = mark_delivered db i now"
| "queue_step rd n db (GetQueueSize u) =
     (case get_queue_size rd db u of Inl e \<Rightarrow> db | Inr (k, db') \<Rightarrow> db')"

definition queue_run :: "literal_reader \<Rightarrow> int \<Rightarrow> queue_op list \<Rightarrow> msg_db" where
  "queue_run rd n ops = foldl (queue_step rd n) empty_db ops"

text \<open>Marking every message of a drain, each at its own clock reading.\<close>

definition mark_all :: "msg_db \<Rightarrow> queued_message list \<Rightarrow> (nat \<Rightarrow> nat) \<Rightarrow> msg_db" where
  "mark_all db msgs clock = foldl (\<lambda>d m. mark_delivered d (q_id m) (clock (q_id m))) db msgs"

section \<open>Message store (storage/message\_store.py)\<close>

text \<open>
  \<open>save_message\<close>: \<open>json.dumps(content) if content else None\<close>, then one INSERT with
  \<open>delivered = 0\<close>, binding sender and recipient in this order. Returns the new id.
\<close>

definition save_message ::
  "literal_reader \<Rightarrow> msg_db \<Rightarrow> pyval \<Rightarrow> pyval \<Rightarrow> string option \<Rightarrow> string \<Rightarrow> pyval \<Rightarrow> nat
     \<Rightarrow> py_error + (nat \<times> msg_db)" where
  "save_message rd db sender recipient room mtype cont now =
     (let content_json = (if truthy cont then Some cont else None)
      in case bind_param sender of
           Inl e \<Rightarrow> Inl e
         | Inr s \<Rightarrow>
             (case bind_param recipient of
                Inl e \<Rightarrow> Inl e
              | Inr p \<Rightarrow>
                  (let message_id = next_id db;
                       row = \<lparr>msg_id = message_id, sender_id = integer_affinity rd s,
                              recipient_id = integer_affinity rd p, room_id = room,
                              message_type = mtype, content = content_json,
                              delivered = False, created_at = now, delivered_at = None\<rparr>
                   in Inr (message_id, \<lparr>messages = messages db @ [row], seq = message_id\<rparr>))))"

record stored_message =
  s_id :: nat
  s_sender_id :: pyval
  s_message_type :: string
  s_content :: pyval
  s_created_at :: nat

definition get_undelivered_messages ::
  "literal_reader \<Rightarrow> msg_db \<Rightarrow> pyval \<Rightarrow> py_error + (stored_message list \<times> msg_db)" where
  "get_undelivered_messages rd db user =
     (case bind_param user of
        Inl e \<Rightarrow> Inl e
      | Inr p \<Rightarrow>
          Inr (map (\<lambda>r. \<lparr>s_id = msg_id r, s_sender_id = py_of_sql (sender_id r),
                          s_message_type = message_type r, s_content = row_content r,
                          s_created_at = created_at r\<rparr>)
                 (select_undelivered rd db p), db))"

text \<open>The store's \<open>mark_delivered\<close> runs the same UPDATE as the queue's.\<close>

definition store_mark_delivered :: "msg_db \<Rightarrow> nat \<Rightarrow> nat \<Rightarrow> msg_db" where
  "store_mark_delivered db message_id now =
     db\<lparr>messages :=
          map (\<lambda>r. if msg_id r = message_id
                    then r\<lparr>delivered := True, delivered_at := Some now\<rparr> else r)
              (messages db)\<rparr>"

text \<open>
  \<open>delete_old_messages\<close>: \<open>DELETE FROM messages WHERE datetime(created_at) <
  datetime('now', '-' || days || ' days')\<close>, whatever the delivered flag. A negative
  \<open>days\<close> makes the modifier \<open>--n days\<close>, which no date accepts: the bound is NULL and no
  row is deleted. Returns the number of deleted rows.
\<close>

definition delete_old_messages :: "msg_db \<Rightarrow> int \<Rightarrow> nat \<Rightarrow> py_error + (nat \<times> msg_db)" where
  "delete_old_messages db days now =
     (if \<not> (- (2 ^ 63) \<le> days \<and> days < 2 ^ 63) then Inl OverflowError
      else if days < 0 then Inr (0, db)
      else
        (let kept = filter (\<lambda>r. \<not> (int (created_at r) < int now - days * 86400)) (messages db)
         in Inr (length (messages db) - length kept, db\<lparr>messages := kept\<rparr>)))"

text \<open>Every call of the repository on the messages table, the queue's and the store's.\<close>

datatype store_op =
    SaveMessage pyval pyval "string option" string pyval nat
  | GetUndelivered pyval
  | StoreMarkDelivered nat nat
  | DeleteOld int nat

fun store_step :: "literal_reader \<Rightarrow> msg_db \<Rightarrow> store_op \<Rightarrow> msg_db" where
  "store_step rd db (SaveMessage s r room mtype c now) =
     (case save_message rd db s r room mtype c now of Inl e \<Rightarrow> db | Inr (i, db') \<Rightarrow> db')"
| "store_step rd db (GetUndelivered u) =
     (case get_undelivered_messages rd db u of Inl e \<Rightarrow> db | Inr (msgs, db') \<Rightarrow> db')"
| "store_step rd db (StoreMarkDelivered i now) = store_mark_delivered db i now"
| "store_step rd db (DeleteOld days now) =
     (case delete_old_messages db days now of Inl e \<Rightarrow> db | Inr (k, db') \<Rightarrow> db')"

datatype table_op = Queue queue_op | Store store_op

fun table_step :: "literal_reader \<Rightarrow> int \<Rightarrow> msg_db \<Rightarrow> table_op \<Rightarrow> msg_db" where
  "table_step rd n db (Queue x) = queue_step rd n db x"
| "table_step rd n db (Store x) = store_step rd db x"

section \<open>Connection pool (websocket/connection\_pool.py)\<close>

record ('u, 'c) connection_pool =
  max_connections_per_user :: int
  pool_user_connections :: "'u \<rightharpoonup> 'c list"

definition new_pool :: "int \<Rightarrow> ('u, 'c) connection_pool" where
  "new_pool limit = \<lparr>max_connections_per_user = limit, pool_user_connections = Map.empty\<rparr>"

definition can_add_connection :: "('u, 'c) connection_pool \<Rightarrow> 'u \<Rightarrow> bool" where
  "can_add_connection p u =
     (case pool_user_connections p u of
        None \<Rightarrow> True
      | Some cs \<Rightarrow> int (length cs) < max_connections_per_user p)"

definition pool_add_connection ::
  "('u, 'c) connection_pool \<Rightarrow> 'u \<Rightarrow> 'c \<Rightarrow> bool \<times> ('u, 'c) connection_pool" where
  "pool_add_connection p u c =
     (if \<not> can_add_connection p u then (False, p)
      else
        (let cs = (case pool_user_connections p u of None \<Rightarrow> [] | Some cs \<Rightarrow> cs)
         in (True, p\<lparr>pool_user_connections := (pool_user_connections p)(u \<mapsto> cs @ [c])\<rparr>)))"

text \<open>\<open>list.remove\<close> deletes the first occurrence; an emptied list is dropped from the dict.\<close>

definition pool_remove_connection ::
  "('u, 'c) connection_pool \<Rightarrow> 'u \<Rightarrow> 'c \<Rightarrow> ('u, 'c) connection_pool" where
  "pool_remove_connection p u c =
     (case pool_user_connections p u of
        None \<Rightarrow> p
      | Some cs \<Rightarrow>
          if c \<in> set cs then
            (let cs' = remove1 c cs
             in if cs' = []
                then p\<lparr>pool_user_connections := (pool_user_connections p)(u := None)\<rparr>
                else p\<lparr>pool_user_connections := (pool_user_connections p)(u \<mapsto> cs')\<rparr>)
          else p)"

definition get_user_connection_count :: "('u, 'c) connection_pool \<Rightarrow> 'u \<Rightarrow> nat" where
  "get_user_connection_count p u =
     length (case pool_user_connections p u of None \<Rightarrow> [] | Some cs \<Rightarrow> cs)"

datatype ('u, 'c) pool_op = PoolAdd 'u 'c | PoolRemove 'u 'c

fun pool_step :: "('u, 'c) connection_pool \<Rightarrow> ('u, 'c) pool_op \<Rightarrow> ('u, 'c) connection_pool" where
  "pool_step p (PoolAdd u c) = snd (pool_add_connection p u c)"
| "pool_step p (PoolRemove u c) = pool_remove_connection p u c"

definition pool_run :: "int \<Rightarrow> ('u, 'c) pool_op list \<Rightarrow> ('u, 'c) connection_pool" where
  "pool_run limit ops = foldl pool_step (new_pool limit) ops"

section \<open>Connection manager (websocket/connection\_manager.py)\<close>

record ('c, 'u, 's) connection_info =
  connection_id :: 'c
  user_id :: 'u
  sid :: 's
  connected_at :: rat
  last_activity :: rat

record ('c, 'u, 's) connection_manager =
  connections :: "'c \<rightharpoonup> ('c, 'u, 's) connection_info"
  user_connections :: "'u \<rightharpoonup> 'c list"

definition new_manager :: "('c, 'u, 's) connection_manager" where
  "new_manager = \<lparr>connections = Map.empty, user_connections = Map.empty\<rparr>"

text \<open>
  \<open>add_connection\<close> has no check and no failure path: it stores the record under the
  connection id and appends the id to the user's list. \<open>t1\<close> and \<open>t2\<close> are its two
  readings of \<open>time.time()\<close>.
\<close>

definition add_connection ::
  "('c, 'u, 's) connection_manager \<Rightarrow> 'c \<Rightarrow> 'u \<Rightarrow> 's \<Rightarrow> rat \<Rightarrow> rat
     \<Rightarrow> ('c, 'u, 's) connection_manager" where
  "add_connection cm c u s t1 t2 =
     (let info = \<lparr>connection_id = c, user_id = u, sid = s, connected_at = t1,
                   last_activity = t2\<rparr>;
          cs = (case user_connections cm u of None \<Rightarrow> [] | Some cs \<Rightarrow> cs)
      in \<lparr>connections = (connections cm)(c \<mapsto> info),
          user_connections = (user_connections cm)(u \<mapsto> cs @ [c])\<rparr>)"

text \<open>
  \<open>remove_connection\<close>: nothing for an unknown id. Otherwise the record is deleted and the
  id is removed from the list of the record's user; \<open>list.remove\<close> raises \<open>ValueError\<close>
  when the id is not in that list (the record is already deleted by then).
\<close>

definition remove_connection ::
  "('c, 'u, 's) connection_manager \<Rightarrow> 'c \<Rightarrow> py_error + ('c, 'u, 's) connection_manager" where
  "remove_connection cm c =
     (case connections cm c of
        None \<Rightarrow> Inr cm
      | Some info \<Rightarrow>
          (let u = user_id info;
               conns = (connections cm)(c := None)
           in case user_connections cm u of
                None \<Rightarrow> Inr (cm\<lparr>connections := conns\<rparr>)
              | Some cs \<Rightarrow>
                  if c \<notin> set cs then Inl ValueError
                  else
                    (let cs' = remove1 c cs
                     in Inr \<lparr>connections = conns,
                             user_connections =
                               (if cs' = [] then (user_connections cm)(u := None)
                                else (user_connections cm)(u \<mapsto> cs'))\<rparr>)))"

definition get_connection ::
  "('c, 'u, 's) connection_manager \<Rightarrow> 'c \<Rightarrow> ('c, 'u, 's) connection_info option" where
  "get_connection cm c = connections cm c"

definition get_user_connections :: "('c, 'u, 's) connection_manager \<Rightarrow> 'u \<Rightarrow> 'c list" where
  "get_user_connections cm u = (case user_connections cm u of None \<Rightarrow> [] | Some cs \<Rightarrow> cs)"

definition is_user_online :: "('c, 'u, 's) connection_manager \<Rightarrow> 'u \<Rightarrow> bool" where
  "is_user_online cm u =
     (case user_connections cm u of None \<Rightarrow> False | Some cs \<Rightarrow> length cs > 0)"

text \<open>Registrations and removals, run from the empty manager; a raise ends the run.\<close>

datatype ('c, 'u, 's) manager_op = Register 'c 'u 's rat rat | Deregister 'c

fun manager_step ::
  "('c, 'u, 's) connection_manager \<Rightarrow> ('c, 'u, 's) manager_op
     \<Rightarrow> py_error + ('c, 'u, 's) connection_manager" where
  "manager_step cm (Register c u s t1 t2) = Inr (add_connection cm c u s t1 t2)"
| "manager_step cm (Deregister c) = remove_connection cm c"

fun manager_run ::
  "('c, 'u, 's) connection_manager \<Rightarrow> ('c, 'u, 's) manager_op list
     \<Rightarrow> py_error + ('c, 'u, 's) connection_manager" where
  "manager_run cm [] = Inr cm"
| "manager_run cm (x # xs) =
     (case manager_step cm x of Inl e \<Rightarrow> Inl e | Inr cm' \<Rightarrow> manager_run cm' xs)"

section \<open>Communication hub (hub/communication\_hub.py)\<close>

text \<open>
  What the hub hands to the transport: \<open>socketio.emit(event, payload, room=...)\<close>. Inside
  an event handler an emit without \<open>room\<close> goes to the requesting session.
\<close>

record 's emit =
  e_event :: string
  e_payload :: pyval
  e_room :: 's

text \<open>The loop over the user's connection ids: an id without a record is skipped.\<close>

fun emit_to_connections ::
  "('c, 'u, 's) connection_manager \<Rightarrow> (string \<times> pyval) list \<Rightarrow> 'c list \<Rightarrow> 's emit list" where
  "emit_to_connections cm message [] = []"
| "emit_to_connections cm message (conn_id # rest) =
     (case get_connection cm conn_id of
        None \<Rightarrow> emit_to_connections cm message rest
      | Some conn_info \<Rightarrow>
          \<lparr>e_event = ''message'', e_payload = PyDict message, e_room = sid conn_info\<rparr>
            # emit_to_connections cm message rest)"

text \<open>
  \<open>send_to_user\<close>: the user id is first a dictionary key of the registry (a list or a
  dictionary raises \<open>TypeError\<close>). With connections listed the message is emitted to
  them; with none it is saved, which raises when \<open>sqlite3\<close> refuses the sender or the
  recipient, and then nothing is stored.
\<close>

definition send_to_user ::
  "literal_reader \<Rightarrow> ('c, pyval, 's) connection_manager \<Rightarrow> msg_db \<Rightarrow> pyval
     \<Rightarrow> (string \<times> pyval) list \<Rightarrow> nat \<Rightarrow> py_error + ('s emit list \<times> msg_db)" where
  "send_to_user rd cm db user message now =
     (if \<not> hashable user then Inl TypeError
      else
        (let connection_ids = get_user_connections cm (dict_key user)
         in if connection_ids \<noteq> []
            then Inr (emit_to_connections cm message connection_ids, db)
            else
              (case save_message rd db (dict_get message ''sender_id'') user None ''direct''
                      (PyDict message) now of
                 Inl e \<Rightarrow> Inl e
               | Inr (i, db') \<Rightarrow> Inr ([], db'))))"

section \<open>Message handler (messaging/message\_handler.py)\<close>




section \<open>The message event (api/app.py)\<close>



section \<open>Room manager (rooms/room\_manager.py)\<close>

record 'u room =
  room_name :: string
  created_by :: 'u
  is_private :: bool
  max_members :: int
  room_created_at :: nat

record 'u member_row =
  member_room :: string
  member_user :: 'u
  joined_at :: nat

text \<open>
  \<open>rooms\<close> is keyed by its primary key \<open>room_id\<close>; \<open>room_members\<close> is the list of its
  rows, with primary key \<open>(room_id, user_id)\<close>.
\<close>

record 'u room_db =
  rooms :: "string \<rightharpoonup> 'u room"
  room_members :: "'u member_row list"

definition empty_room_db :: "'u room_db" where
  "empty_room_db = \<lparr>rooms = Map.empty, room_members = []\<rparr>"

text \<open>\<open>create_room\<close>: the INSERT; on a taken id the IntegrityError is caught and logged.\<close>

definition create_room ::
  "'u room_db \<Rightarrow> string \<Rightarrow> string \<Rightarrow> 'u \<Rightarrow> bool \<Rightarrow> int \<Rightarrow> nat \<Rightarrow> 'u room_db" where
  "create_room db rid name creator private maxm now =
     (case rooms db rid of
        Some _ \<Rightarrow> db
      | None \<Rightarrow>
          db\<lparr>rooms := (rooms db)(rid \<mapsto>
                \<lparr>room_name = name, created_by = creator, is_private = private,
                 max_members = maxm, room_created_at = now\<rparr>)\<rparr>)"

definition member_count :: "'u room_db \<Rightarrow> string \<Rightarrow> nat" where
  "member_count db rid = length (filter (\<lambda>m. member_room m = rid) (room_members db))"

definition is_member :: "'u room_db \<Rightarrow> string \<Rightarrow> 'u \<Rightarrow> bool" where
  "is_member db rid u =
     ((rid, u) \<in> set (map (\<lambda>m. (member_room m, member_user m)) (room_members db)))"

text \<open>
  \<open>join_room\<close>: unknown room, then full room, each return False; then the INSERT, where
  a row that is already there (IntegrityError) also returns True.
\<close>

definition join_room :: "'u room_db \<Rightarrow> string \<Rightarrow> 'u \<Rightarrow> nat \<Rightarrow> bool \<times> 'u room_db" where
  "join_room db rid u now =
     (case rooms db rid of
        None \<Rightarrow> (False, db)
      | Some room \<Rightarrow>
          (let current_count = member_count db rid
           in if int current_count \<ge> max_members room then (False, db)
              else if is_member db rid u then (True, db)
              else (True, db\<lparr>room_members := room_members db @
                      [\<lparr>member_room = rid, member_user = u, joined_at = now\<rparr>]\<rparr>)))"

definition leave_room :: "'u room_db \<Rightarrow> string \<Rightarrow> 'u \<Rightarrow> 'u room_db" where
  "leave_room db rid u =
     db\<lparr>room_members :=
          filter (\<lambda>m. \<not> (member_room m = rid \<and> member_user m = u)) (room_members db)\<rparr>"

definition get_room_members :: "'u room_db \<Rightarrow> string \<Rightarrow> 'u list" where
  "get_room_members db rid =
     map member_user (filter (\<lambda>m. member_room m = rid) (room_members db))"

datatype 'u room_op =
    CreateRoom string string 'u bool int nat
  | JoinRoom string 'u nat
  | LeaveRoom string 'u

fun room_step :: "'u room_db \<Rightarrow> 'u room_op \<Rightarrow> 'u room_db" where
  "room_step db (CreateRoom rid name creator private maxm now) =
     create_room db rid name creator private maxm now"
| "room_step db (JoinRoom rid u now) = snd (join_room db rid u now)"
| "room_step db (LeaveRoom rid u) = leave_room db rid u"

definition room_run :: "'u room_op list \<Rightarrow> 'u room_db" where
  "room_run ops = foldl room_step empty_room_db ops"

section \<open>Invariants\<close>

text \<open>
  Every listed connection id has a record, owned by the user that lists it; lists are
  non-empty and without repetition.
\<close>

definition manager_consistent :: "('c, 'u, 's) connection_manager \<Rightarrow> bool" where
  "manager_consistent cm =
     (\<forall>u cs. user_connections cm u = Some cs \<longrightarrow>
        cs \<noteq> [] \<and> distinct cs \<and>
        (\<forall>c \<in> set cs. \<exists>i. connections cm c = Some i \<and> user_id i = u))"

text \<open>A run in which every registration uses an id that has no record at that moment.\<close>

fun registers_absent ::
  "('c, 'u, 's) connection_manager \<Rightarrow> ('c, 'u, 's) manager_op list \<Rightarrow> bool" where
  "registers_absent cm [] = True"
| "registers_absent cm (Register c u s t1 t2 # xs) =
     (connections cm c = None \<and> registers_absent (add_connection cm c u s t1 t2) xs)"
| "registers_absent cm (Deregister c # xs) =
     (case remove_connection cm c of Inl e \<Rightarrow> True | Inr cm' \<Rightarrow> registers_absent cm' xs)"

text \<open>
  Every room holds at most \<open>max_members\<close> members (when that is not negative), and there
  are no member rows for a room that does not exist.
\<close>

definition rooms_bounded :: "'u room_db \<Rightarrow> bool" where
  "rooms_bounded db =
     (\<forall>rid. case rooms db rid of
              None \<Rightarrow> member_count db rid = 0
            | Some room \<Rightarrow> 0 \<le> max_members room \<longrightarrow> int (member_count db rid) \<le> max_members room)"

section \<open>Example states\<close>

text \<open>
  Small concrete states on which the theorems below are instantiated: queues holding one
  and two messages, registries with one and two connections and one left with a listed id
  that has no record, a pool at its limit of three, rooms of capacity one and two, and
  events as the transport delivers them.
\<close>

definition one_queued :: msg_db where
  "one_queued = \<lparr>messages = [\<lparr>msg_id = 1, sender_id = SqlNull, recipient_id = SqlInt 7, room_id = None,
                    message_type = ''offline'', content = Some (PyDict []), delivered = False,
                    created_at = 10, delivered_at = None\<rparr>], seq = 1\<rparr>"

definition one_connection :: "(string, nat, string) connection_manager" where
  "one_connection = add_connection new_manager ''c1'' 1 ''s1'' 0 0"

definition dangling_manager :: "(string, pyval, string) connection_manager" where
  "dangling_manager = \<lparr>connections = Map.empty, user_connections = [PyInt 1 \<mapsto> [''c1'']]\<rparr>"

definition two_connections :: "(string, pyval, string) connection_manager" where
  "two_connections =
     add_connection (add_connection new_manager ''c1'' (PyInt 1) ''s1'' 0 0)
       ''c2'' (PyInt 1) ''s2'' 5 5"

definition hello :: "(string \<times> pyval) list" where
  "hello = [(''id'', PyInt 1), (''sender_id'', PyInt 2), (''content'', PyStr ''hi''),
            (''type'', PyStr ''text'')]"

definition three_connections :: "(nat, string) connection_pool" where
  "three_connections = pool_run 3 [PoolAdd 1 ''c1'', PoolAdd 1 ''c2'', PoolAdd 1 ''c3'']"

definition single_room :: "nat room_db" where
  "single_room = create_room empty_room_db ''solo'' ''Solo'' 1 False 1 0"

definition full_room :: "nat room_db" where
  "full_room = room_run [CreateRoom ''general'' ''General'' 1 False 2 0,
                         JoinRoom ''general'' 1 1, JoinRoom ''general'' 2 2]"



definition mixed_queue :: msg_db where
  "mixed_queue =
     \<lparr>messages =
        [\<lparr>msg_id = 1, sender_id = SqlInt 2, recipient_id = SqlInt 7, room_id = None,
          message_type = ''offline'', content = Some (PyStr ''a''), delivered = False,
          created_at = 30, delivered_at = None\<rparr>,
         \<lparr>msg_id = 2, sender_id = SqlInt 2, recipient_id = SqlInt 8, room_id = None,
          message_type = ''offline'', content = Some (PyStr ''b''), delivered = False,
          created_at = 5, delivered_at = None\<rparr>,
         \<lparr>msg_id = 3, sender_id = SqlNull, recipient_id = SqlInt 7, room_id = None,
          message_type = ''text'', content = None, delivered = False,
          created_at = 10, delivered_at = None\<rparr>,
         \<lparr>msg_id = 4, sender_id = SqlInt 2, recipient_id = SqlInt 7, room_id = None,
          message_type = ''offline'', content = Some (PyStr ''d''), delivered = True,
          created_at = 1, delivered_at = Some 2\<rparr>],
      seq = 4\<rparr>"

definition two_queued :: msg_db where
  "two_queued =
     \<lparr>messages =
        [\<lparr>msg_id = 1, sender_id = SqlInt 2, recipient_id = SqlInt 7, room_id = None,
          message_type = ''offline'', content = Some (PyStr ''a''), delivered = False,
          created_at = 30, delivered_at = None\<rparr>,
         \<lparr>msg_id = 2, sender_id = SqlInt 2, recipient_id = SqlInt 7, room_id = None,
          message_type = ''offline'', content = Some (PyStr ''b''), delivered = False,
          created_at = 10, delivered_at = None\<rparr>],
      seq = 2\<rparr>"

definition list_sender :: "(string \<times> pyval) list" where
  "list_sender = [(''id'', PyInt 1), (''sender_id'', PyList [PyInt 2]),
                  (''content'', PyStr ''hi''), (''type'', PyStr ''text'')]"



section \<open>Comparison of stored values\<close>

lemma sql_eq_sym: "sql_eq a b \<Longrightarrow> sql_eq b a"
  by (cases a; cases b) auto

lemma sql_eq_trans: "sql_eq a b \<Longrightarrow> sql_eq b c \<Longrightarrow> sql_eq a c"
  by (cases a; cases b; cases c) auto

lemma sql_eq_same: "sql_eq a b \<Longrightarrow> sql_eq r a = sql_eq r b"
  by (meson sql_eq_sym sql_eq_trans)

lemma sql_eq_refl: "sql_eq a a \<longleftrightarrow> a \<noteq> SqlNull"
  by (cases a) auto

section \<open>Draining\<close>

lemma for_recipient_mark [simp]:
  "for_recipient rd p (r\<lparr>delivered := d, delivered_at := t\<rparr>) = for_recipient rd p r"
  by (simp add: for_recipient_def)

lemma undelivered_mark_rows:
  "undelivered_for rd p
     (map (\<lambda>r. if msg_id r = i then r\<lparr>delivered := True, delivered_at := Some t\<rparr> else r) rows) =
   filter (\<lambda>r. msg_id r \<noteq> i) (undelivered_for rd p rows)"
  by (induction rows) (auto simp: undelivered_for_def)

lemma mark_delivered_rows:
  "messages (mark_delivered db j t) =
     map (\<lambda>r. if msg_id r = j then r\<lparr>delivered := True, delivered_at := Some t\<rparr> else r)
       (messages db)"
  by (simp add: mark_delivered_def)

lemma undelivered_for_mark:
  "undelivered_for rd p (messages (mark_delivered db i t)) =
     filter (\<lambda>r. msg_id r \<noteq> i) (undelivered_for rd p (messages db))"
  by (simp only: mark_delivered_rows undelivered_mark_rows)

lemma undelivered_mark_all:
  "undelivered_for rd p (messages (mark_all db msgs clock)) =
     filter (\<lambda>r. msg_id r \<notin> q_id ` set msgs) (undelivered_for rd p (messages db))"
  unfolding mark_all_def
proof (induction msgs arbitrary: db)
  case Nil
  then show ?case by simp
next
  case (Cons m msgs)
  show ?case
    by (auto simp: Cons.IH undelivered_for_mark intro: filter_cong)
qed

lemma drained_ids:
  "q_id ` set (map row_message (select_undelivered rd db p)) =
     msg_id ` set (undelivered_for rd p (messages db))"
  by (simp add: select_undelivered_def row_message_def image_image)

lemma drained_sorted: "sorted (map q_created_at (map row_message (select_undelivered rd db p)))"
  by (simp add: select_undelivered_def row_message_def comp_def)

lemma drained_mset:
  "mset (map row_message (select_undelivered rd db p)) =
     image_mset row_message
       (filter_mset (\<lambda>r. for_recipient rd p r \<and> \<not> delivered r) (mset (messages db)))"
  by (simp add: select_undelivered_def undelivered_for_def)

text \<open>
  C5, as amended. For a recipient id that \<open>sqlite3\<close> accepts as a parameter,
  \<open>get_messages\<close> returns and leaves the table as it was; what it returns is, message for
  message (id, sender, content, creation time), the rows of the table that are for this
  recipient (as SQLite compares ids) and not delivered, no more and no fewer, in
  non-decreasing order of creation time; and once every returned message has been marked
  delivered (at whatever clock readings), the recipient's queue size is 0. For an id that
  \<open>sqlite3\<close> refuses, the call raises.
\<close>

theorem drain_ordered_then_empty:
  "(case bind_param u of
      Inl e \<Rightarrow> get_messages rd db u = Inl e
    | Inr p \<Rightarrow>
        (\<exists>msgs. get_messages rd db u = Inr (msgs, db) \<and>
           mset msgs =
             image_mset row_message
               (filter_mset (\<lambda>r. sql_eq (recipient_id r) (integer_affinity rd p) \<and> \<not> delivered r)
                  (mset (messages db))) \<and>
           sorted (map q_created_at msgs) \<and>
           get_queue_size rd (mark_all db msgs clock) u = Inr (0, mark_all db msgs clock)))"
proof (cases "bind_param u")
  case (Inl e)
  then show ?thesis by (simp add: get_messages_def)
next
  case (Inr p)
  define msgs where "msgs = map row_message (select_undelivered rd db p)"
  have g: "get_messages rd db u = Inr (msgs, db)"
    using Inr by (simp add: get_messages_def msgs_def)
  have "undelivered_for rd p (messages (mark_all db msgs clock)) = []"
    unfolding undelivered_mark_all msgs_def drained_ids by (simp add: filter_empty_conv)
  then have "get_queue_size rd (mark_all db msgs clock) u = Inr (0, mark_all db msgs clock)"
    using Inr by (simp add: get_queue_size_def)
  moreover have "mset msgs =
             image_mset row_message
               (filter_mset (\<lambda>r. sql_eq (recipient_id r) (integer_affinity rd p) \<and> \<not> delivered r)
                  (mset (messages db)))"
    using drained_mset[of rd db p] by (simp add: msgs_def for_recipient_def)
  moreover have "sorted (map q_created_at msgs)"
    unfolding msgs_def by (rule drained_sorted)
  ultimately show ?thesis using Inr g by auto
qed

theorem drain_ordered_then_empty_witness:
  "get_messages integer_reader mixed_queue (PyInt 7) =
     Inr ([\<lparr>q_id = 3, q_sender_id = PyNone, q_content = PyDict [], q_created_at = 10\<rparr>,
           \<lparr>q_id = 1, q_sender_id = PyInt 2, q_content = PyStr ''a'', q_created_at = 30\<rparr>],
          mixed_queue) \<and>
   get_queue_size integer_reader
     (mark_all mixed_queue
        [\<lparr>q_id = 3, q_sender_id = PyNone, q_content = PyDict [], q_created_at = 10\<rparr>,
         \<lparr>q_id = 1, q_sender_id = PyInt 2, q_content = PyStr ''a'', q_created_at = 30\<rparr>]
        (\<lambda>i. 40 + i)) (PyInt 7) =
     Inr (0, mark_all mixed_queue
        [\<lparr>q_id = 3, q_sender_id = PyNone, q_content = PyDict [], q_created_at = 10\<rparr>,
         \<lparr>q_id = 1, q_sender_id = PyInt 2, q_content = PyStr ''a'', q_created_at = 30\<rparr>]
        (\<lambda>i. 40 + i))"
proof -
  have g: "get_messages integer_reader mixed_queue (PyInt 7) =
     Inr ([\<lparr>q_id = 3, q_sender_id = PyNone, q_content = PyDict [], q_created_at = 10\<rparr>,
           \<lparr>q_id = 1, q_sender_id = PyInt 2, q_content = PyStr ''a'', q_created_at = 30\<rparr>],
          mixed_queue)"
    by (simp add: get_messages_def select_undelivered_def undelivered_for_def for_recipient_def
          integer_affinity_def mixed_queue_def row_message_def row_content_def)
  from drain_ordered_then_empty
         [where u = "PyInt 7" and rd = integer_reader and db = mixed_queue
            and clock = "\<lambda>i. 40 + i"] g
  show ?thesis by simp
qed

text \<open>
  C5 as stated fails for a recipient id outside 64 bits: the SELECT cannot take it, and
  neither the drain nor the size returns.
\<close>

theorem drain_refused_id_counterexample:
  "get_messages integer_reader mixed_queue (PyInt (2 ^ 63)) = Inl OverflowError \<and>
   get_queue_size integer_reader mixed_queue (PyInt (2 ^ 63)) = Inl OverflowError"
  by (simp add: get_messages_def get_queue_size_def)

section \<open>Bound and eviction of the offline queue\<close>

lemma max_id_ge: "r \<in> set rows \<Longrightarrow> msg_id r \<le> max_id s rows"
  by (induction rows) auto

lemma next_id_fresh: "r \<in> set (messages db) \<Longrightarrow> msg_id r < next_id db"
  by (simp add: next_id_def max_id_ge less_Suc_eq_le)

lemma filter_other_ids:
  "distinct (map f xs) \<Longrightarrow> x \<in> set xs \<Longrightarrow> filter (\<lambda>r. f r \<noteq> f x) xs = remove1 x xs"
proof (induction xs)
  case Nil
  then show ?case by simp
next
  case (Cons a xs)
  show ?case
  proof (cases "a = x")
    case True
    with Cons.prems have "\<forall>r \<in> set xs. f r \<noteq> f x" by (auto simp: image_iff)
    then have "filter (\<lambda>r. f r \<noteq> f x) xs = xs" by (simp add: filter_id_conv)
    with True show ?thesis by simp
  next
    case False
    with Cons.prems have "x \<in> set xs" "f a \<noteq> f x" by auto
    with Cons show ?thesis using False by simp
  qed
qed

lemma sort_key_head_least:
  assumes "sort_key f xs = y # ys"
  shows "y \<in> set xs \<and> (\<forall>x \<in> set xs. f y \<le> f x)"
proof -
  have s: "set (y # ys) = set xs" using assms set_sort[of f xs] by simp
  have "sorted (map f (y # ys))" using assms sorted_sort_key[of f xs] by simp
  then have "\<forall>x \<in> set (y # ys). f y \<le> f x" by auto
  with s show ?thesis by auto
qed

lemma undelivered_for_filter:
  "undelivered_for rd p (filter P rows) = filter P (undelivered_for rd p rows)"
  by (auto simp: undelivered_for_def intro: filter_cong)

lemma undelivered_for_append:
  "undelivered_for rd p (xs @ ys) = undelivered_for rd p xs @ undelivered_for rd p ys"
  by (simp add: undelivered_for_def)

lemma undelivered_distinct:
  "distinct (map msg_id rows) \<Longrightarrow> distinct (map msg_id (undelivered_for rd p rows))"
  by (simp add: undelivered_for_def distinct_map_filter)

lemma select_undelivered_Nil:
  "select_undelivered rd db p = [] \<longleftrightarrow> undelivered_for rd p (messages db) = []"
proof -
  have "set (select_undelivered rd db p) = set (undelivered_for rd p (messages db))"
    by (simp add: select_undelivered_def)
  then show ?thesis by (metis set_empty)
qed

text \<open>Recipients that compare equal see the same rows.\<close>

lemma undelivered_for_same:
  assumes "sql_eq (integer_affinity rd p) (integer_affinity rd q)"
  shows "undelivered_for rd q rows = undelivered_for rd p rows"
proof -
  have "for_recipient rd q r = for_recipient rd p r" for r
    using sql_eq_same[OF assms, of "recipient_id r"] by (simp add: for_recipient_def)
  then show ?thesis by (simp add: undelivered_for_def)
qed

text \<open>What a successful \<open>add_message\<close> leaves in the table.\<close>

lemma add_message_Inr:
  assumes "add_message rd n db u m s now = Inr (i, db')"
  shows "\<exists>p sv. bind_param u = Inr p \<and> bind_param s = Inr sv \<and> i = next_id db \<and>
           seq db' = next_id db \<and>
           messages db' =
             (if n \<le> int (length (undelivered_for rd p (messages db)))
              then delete_oldest rd db p else messages db) @
             [\<lparr>msg_id = next_id db, sender_id = integer_affinity rd sv,
               recipient_id = integer_affinity rd p, room_id = None,
               message_type = ''offline'', content = Some m, delivered = False,
               created_at = now, delivered_at = None\<rparr>]"
  using assms by (auto simp: add_message_def Let_def split: sum.splits)

lemma add_message_bound:
  assumes "bind_param u = Inr p" "bind_param s = Inr sv"
  shows "\<exists>db'. add_message rd n db u m s now = Inr (next_id db, db')"
  using assms by (simp add: add_message_def Let_def)

lemma delete_oldest_subset: "set (delete_oldest rd db p) \<subseteq> set (messages db)"
  by (auto simp: delete_oldest_def split: list.splits)

lemma delete_oldest_distinct:
  "distinct (map msg_id (messages db)) \<Longrightarrow> distinct (map msg_id (delete_oldest rd db p))"
  by (auto simp: delete_oldest_def distinct_map_filter split: list.splits)

lemma add_message_distinct:
  assumes d: "distinct (map msg_id (messages db))"
    and a: "add_message rd n db u m s now = Inr (i, db')"
  shows "distinct (map msg_id (messages db'))"
proof -
  from add_message_Inr[OF a] obtain p sv where
    rows: "messages db' =
             (if n \<le> int (length (undelivered_for rd p (messages db)))
              then delete_oldest rd db p else messages db) @
             [\<lparr>msg_id = next_id db, sender_id = integer_affinity rd sv,
               recipient_id = integer_affinity rd p, room_id = None,
               message_type = ''offline'', content = Some m, delivered = False,
               created_at = now, delivered_at = None\<rparr>]"
    by blast
  have fresh: "\<forall>r \<in> set (messages db). msg_id r \<noteq> next_id db"
    using next_id_fresh[of _ db] by fastforce
  then have "next_id db \<notin> msg_id ` set (messages db)"
    by auto
  moreover have "next_id db \<notin> msg_id ` set (delete_oldest rd db p)"
    using fresh delete_oldest_subset[of rd db p] by auto
  ultimately show ?thesis
    using d delete_oldest_distinct[OF d, of rd p] by (simp add: rows)
qed

lemma mark_delivered_ids:
  "map msg_id (messages (mark_delivered db i t)) = map msg_id (messages db)"
  by (simp add: mark_delivered_def comp_def if_distrib cong: if_cong)

lemma queue_step_distinct:
  assumes "distinct (map msg_id (messages db))"
  shows "distinct (map msg_id (messages (queue_step rd n db x)))"
proof (cases x)
  case (AddMessage u m s now)
  then show ?thesis using assms add_message_distinct[OF assms, of rd n u m s now]
    by (auto split: sum.splits)
next
  case (GetMessages u)
  then show ?thesis using assms by (auto simp: get_messages_def split: sum.splits)
next
  case (MarkDelivered i t)
  then show ?thesis using assms by (simp add: mark_delivered_ids)
next
  case (GetQueueSize u)
  then show ?thesis using assms by (auto simp: get_queue_size_def split: sum.splits)
qed

lemma queue_fold_distinct:
  "distinct (map msg_id (messages db)) \<Longrightarrow>
   distinct (map msg_id (messages (foldl (queue_step rd n) db ops)))"
  by (induction ops arbitrary: db) (simp_all add: queue_step_distinct)

lemma queue_run_distinct: "distinct (map msg_id (messages (queue_run rd n ops)))"
  by (simp add: queue_run_def queue_fold_distinct empty_db_def)

text \<open>What an eviction does when the recipient has an undelivered row.\<close>

lemma delete_oldest_evicts:
  assumes d: "distinct (map msg_id (messages db))"
    and ne: "undelivered_for rd p (messages db) \<noteq> []"
  shows "\<exists>oldest. oldest \<in> set (undelivered_for rd p (messages db))
           \<and> (\<forall>r \<in> set (undelivered_for rd p (messages db)). created_at oldest \<le> created_at r)
           \<and> delete_oldest rd db p = remove1 oldest (messages db)
           \<and> undelivered_for rd p (delete_oldest rd db p) =
               remove1 oldest (undelivered_for rd p (messages db))"
proof -
  from ne obtain y ys where s: "select_undelivered rd db p = y # ys"
    by (cases "select_undelivered rd db p") (auto simp: select_undelivered_Nil)
  then have h: "y \<in> set (undelivered_for rd p (messages db))"
      "\<forall>r \<in> set (undelivered_for rd p (messages db)). created_at y \<le> created_at r"
    using sort_key_head_least[of created_at "undelivered_for rd p (messages db)" y ys]
    by (simp_all add: select_undelivered_def)
  then have ymem: "y \<in> set (messages db)" by (simp add: undelivered_for_def)
  have del: "delete_oldest rd db p = filter (\<lambda>r. msg_id r \<noteq> msg_id y) (messages db)"
    using s by (simp add: delete_oldest_def)
  have "delete_oldest rd db p = remove1 y (messages db)"
    using del filter_other_ids[OF d ymem] by simp
  moreover have "undelivered_for rd p (delete_oldest rd db p) =
                   remove1 y (undelivered_for rd p (messages db))"
    using del filter_other_ids[OF undelivered_distinct[OF d, of rd p] h(1)]
    by (simp add: undelivered_for_filter)
  ultimately show ?thesis using h by blast
qed

lemma size_after_add_same:
  assumes d: "distinct (map msg_id (messages db))"
    and a: "add_message rd n db u m s now = Inr (i, db')"
    and p: "bind_param u = Inr p"
  shows "length (undelivered_for rd p (messages db')) =
     (if n \<le> int (length (undelivered_for rd p (messages db)))
         \<and> undelivered_for rd p (messages db) \<noteq> []
      then length (undelivered_for rd p (messages db)) - 1
      else length (undelivered_for rd p (messages db))) +
     (if integer_affinity rd p = SqlNull then 0 else 1)"
proof -
  from add_message_Inr[OF a] p obtain sv where
    rows: "messages db' =
             (if n \<le> int (length (undelivered_for rd p (messages db)))
              then delete_oldest rd db p else messages db) @
             [\<lparr>msg_id = next_id db, sender_id = integer_affinity rd sv,
               recipient_id = integer_affinity rd p, room_id = None,
               message_type = ''offline'', content = Some m, delivered = False,
               created_at = now, delivered_at = None\<rparr>]"
    by auto
  have new: "undelivered_for rd p
      [\<lparr>msg_id = next_id db, sender_id = integer_affinity rd sv,
        recipient_id = integer_affinity rd p, room_id = None,
        message_type = ''offline'', content = Some m, delivered = False,
        created_at = now, delivered_at = None\<rparr>] =
      (if integer_affinity rd p = SqlNull then []
       else [\<lparr>msg_id = next_id db, sender_id = integer_affinity rd sv,
        recipient_id = integer_affinity rd p, room_id = None,
        message_type = ''offline'', content = Some m, delivered = False,
        created_at = now, delivered_at = None\<rparr>])"
    by (simp add: undelivered_for_def for_recipient_def sql_eq_refl)
  show ?thesis
  proof (cases "undelivered_for rd p (messages db) = []")
    case True
    then have "delete_oldest rd db p = messages db"
      by (simp add: delete_oldest_def select_undelivered_Nil[symmetric])
    with True show ?thesis
      by (simp add: rows undelivered_for_append new)
  next
    case False
    from delete_oldest_evicts[OF d False] obtain oldest where
      o: "oldest \<in> set (undelivered_for rd p (messages db))"
         "undelivered_for rd p (delete_oldest rd db p) =
            remove1 oldest (undelivered_for rd p (messages db))"
      by blast
    then have "length (undelivered_for rd p (delete_oldest rd db p)) =
               length (undelivered_for rd p (messages db)) - 1"
      by (simp add: length_remove1)
    with False show ?thesis
      by (simp add: rows undelivered_for_append new)
  qed
qed

lemma size_after_add_other:
  assumes a: "add_message rd n db u m s now = Inr (i, db')"
    and p: "bind_param u = Inr p"
    and other: "\<not> sql_eq (integer_affinity rd p) (integer_affinity rd q)"
  shows "length (undelivered_for rd q (messages db')) \<le> length (undelivered_for rd q (messages db))"
proof -
  from add_message_Inr[OF a] p obtain sv where
    rows: "messages db' =
             (if n \<le> int (length (undelivered_for rd p (messages db)))
              then delete_oldest rd db p else messages db) @
             [\<lparr>msg_id = next_id db, sender_id = integer_affinity rd sv,
               recipient_id = integer_affinity rd p, room_id = None,
               message_type = ''offline'', content = Some m, delivered = False,
               created_at = now, delivered_at = None\<rparr>]"
    by auto
  have "length (undelivered_for rd q (delete_oldest rd db p))
          \<le> length (undelivered_for rd q (messages db))"
    by (auto simp: delete_oldest_def undelivered_for_filter split: list.splits)
  with other show ?thesis
    by (simp add: rows undelivered_for_append undelivered_for_def for_recipient_def)
qed

lemma size_after_mark:
  "length (undelivered_for rd q (messages (mark_delivered db i t)))
     \<le> length (undelivered_for rd q (messages db))"
  by (simp add: undelivered_for_mark)

lemma add_message_bounded:
  assumes n: "0 < n" and d: "distinct (map msg_id (messages db))"
    and b: "\<forall>q. int (length (undelivered_for rd q (messages db))) \<le> n"
    and a: "add_message rd n db u m s now = Inr (i, db')"
  shows "int (length (undelivered_for rd q (messages db'))) \<le> n"
proof -
  from add_message_Inr[OF a] obtain p where p: "bind_param u = Inr p" by blast
  have bp: "int (length (undelivered_for rd p (messages db))) \<le> n"
    and bq: "int (length (undelivered_for rd q (messages db))) \<le> n"
    using b by blast+
  show ?thesis
  proof (cases "sql_eq (integer_affinity rd p) (integer_affinity rd q)")
    case True
    have same: "undelivered_for rd q rows = undelivered_for rd p rows" for rows
      using undelivered_for_same[OF True] .
    have "int (length (undelivered_for rd p (messages db'))) \<le> n"
      using size_after_add_same[OF d a p] bp n by (auto split: if_splits)
    then show ?thesis by (simp add: same)
  next
    case False
    from size_after_add_other[OF a p False] bq show ?thesis by linarith
  qed
qed

lemma queue_step_bounded:
  assumes "0 < n" "distinct (map msg_id (messages db))"
    and b: "\<forall>q. int (length (undelivered_for rd q (messages db))) \<le> n"
  shows "int (length (undelivered_for rd q (messages (queue_step rd n db x)))) \<le> n"
proof -
  have bq: "int (length (undelivered_for rd q (messages db))) \<le> n" using b by blast
  show ?thesis
  proof (cases x)
    case (AddMessage u m s now)
    show ?thesis
    proof (cases "add_message rd n db u m s now")
      case (Inl e)
      with AddMessage bq show ?thesis by simp
    next
      case (Inr r)
      obtain i db' where r: "r = (i, db')" by (cases r)
      from add_message_bounded[OF assms(1,2) b Inr[unfolded r], of q] AddMessage Inr r
      show ?thesis by simp
    qed
  next
    case (GetMessages u)
    then show ?thesis using bq by (auto simp: get_messages_def split: sum.splits)
  next
    case (MarkDelivered i t)
    then show ?thesis using bq size_after_mark[of rd q db i t] by simp
  next
    case (GetQueueSize u)
    then show ?thesis using bq by (auto simp: get_queue_size_def split: sum.splits)
  qed
qed

lemma queue_fold_bounded:
  assumes "0 < n"
  shows "distinct (map msg_id (messages db)) \<Longrightarrow>
         \<forall>q. int (length (undelivered_for rd q (messages db))) \<le> n \<Longrightarrow>
         int (length (undelivered_for rd q (messages (foldl (queue_step rd n) db ops)))) \<le> n"
proof (induction ops arbitrary: db q)
  case Nil
  then show ?case by simp
next
  case (Cons x ops)
  have "distinct (map msg_id (messages (queue_step rd n db x)))"
    using Cons.prems(1) by (rule queue_step_distinct)
  moreover have "\<forall>q. int (length (undelivered_for rd q (messages (queue_step rd n db x)))) \<le> n"
    using queue_step_bounded[OF assms Cons.prems(1) Cons.prems(2)] by blast
  ultimately show ?case using Cons.IH by simp
qed

lemma queue_run_bounded:
  "0 < n \<Longrightarrow> int (length (undelivered_for rd q (messages (queue_run rd n ops)))) \<le> n"
  unfolding queue_run_def
  by (rule queue_fold_bounded) (simp_all add: empty_db_def undelivered_for_def)

lemma undelivered_key_not_null:
  "undelivered_for rd p rows \<noteq> [] \<Longrightarrow> integer_affinity rd p \<noteq> SqlNull"
proof
  assume ne: "undelivered_for rd p rows \<noteq> []" and null: "integer_affinity rd p = SqlNull"
  from ne obtain r where "r \<in> set (undelivered_for rd p rows)"
    by (cases "undelivered_for rd p rows") auto
  then have "sql_eq (recipient_id r) (integer_affinity rd p)"
    by (simp add: undelivered_for_def for_recipient_def)
  with null show False by (cases "recipient_id r") simp_all
qed

text \<open>
  C2, as amended. With a bound \<open>max_messages = n\<close> of at least 1, after any run of the
  queue's operations from the empty table every recipient has at most \<open>n\<close> undelivered
  messages. When an enqueue goes through while the recipient's undelivered count equals
  \<open>n\<close>, exactly one row is deleted before the insert: an undelivered row of that recipient
  whose creation time is least; the count stays at \<open>n\<close>.
\<close>

theorem queue_bounded_oldest_evicted:
  assumes "0 < n" and "db = queue_run rd n ops"
  shows "(\<forall>k d. get_queue_size rd db u = Inr (k, d) \<longrightarrow> int k \<le> n) \<and>
         (\<forall>k d i db'. get_queue_size rd db u = Inr (k, d) \<and> int k = n \<and>
              add_message rd n db u m s now = Inr (i, db') \<longrightarrow>
            (\<exists>oldest p sv. bind_param u = Inr p \<and> bind_param s = Inr sv \<and>
               oldest \<in> set (undelivered_for rd p (messages db)) \<and>
               (\<forall>r \<in> set (undelivered_for rd p (messages db)).
                   created_at oldest \<le> created_at r) \<and>
               messages db' =
                 remove1 oldest (messages db) @
                   [\<lparr>msg_id = next_id db, sender_id = integer_affinity rd sv,
                     recipient_id = integer_affinity rd p, room_id = None,
                     message_type = ''offline'', content = Some m, delivered = False,
                     created_at = now, delivered_at = None\<rparr>] \<and>
               get_queue_size rd db' u = Inr (k, db')))"
proof (intro conjI allI impI)
  fix k d
  assume "get_queue_size rd db u = Inr (k, d)"
  then obtain p where "bind_param u = Inr p" "k = length (undelivered_for rd p (messages db))"
    by (auto simp: get_queue_size_def split: sum.splits)
  then show "int k \<le> n"
    using assms queue_run_bounded[of n rd p ops] by simp
next
  fix k d i db'
  assume h: "get_queue_size rd db u = Inr (k, d) \<and> int k = n \<and>
              add_message rd n db u m s now = Inr (i, db')"
  then obtain p where p: "bind_param u = Inr p"
      and k: "k = length (undelivered_for rd p (messages db))"
    by (auto simp: get_queue_size_def split: sum.splits)
  from h have full: "int k = n" and a: "add_message rd n db u m s now = Inr (i, db')"
    by simp_all
  have dist: "distinct (map msg_id (messages db))"
    using assms(2) by (simp add: queue_run_distinct)
  have ne: "undelivered_for rd p (messages db) \<noteq> []"
    using full assms(1) k by auto
  from delete_oldest_evicts[OF dist ne] obtain oldest where
    o: "oldest \<in> set (undelivered_for rd p (messages db))"
       "\<forall>r \<in> set (undelivered_for rd p (messages db)). created_at oldest \<le> created_at r"
       "delete_oldest rd db p = remove1 oldest (messages db)"
    by blast
  from add_message_Inr[OF a] p obtain sv where sv: "bind_param s = Inr sv"
    and rows: "messages db' =
             (if n \<le> int (length (undelivered_for rd p (messages db)))
              then delete_oldest rd db p else messages db) @
             [\<lparr>msg_id = next_id db, sender_id = integer_affinity rd sv,
               recipient_id = integer_affinity rd p, room_id = None,
               message_type = ''offline'', content = Some m, delivered = False,
               created_at = now, delivered_at = None\<rparr>]"
    by auto
  have rows': "messages db' =
                 remove1 oldest (messages db) @
                   [\<lparr>msg_id = next_id db, sender_id = integer_affinity rd sv,
                     recipient_id = integer_affinity rd p, room_id = None,
                     message_type = ''offline'', content = Some m, delivered = False,
                     created_at = now, delivered_at = None\<rparr>]"
    using rows full k o(3) by simp
  have "length (undelivered_for rd p (messages db')) = k"
    using size_after_add_same[OF dist a p] undelivered_key_not_null[OF ne] ne full k
    by (cases "undelivered_for rd p (messages db)") auto
  then have size: "get_queue_size rd db' u = Inr (k, db')"
    using p by (simp add: get_queue_size_def)
  from p sv o(1,2) rows' size
  show "\<exists>oldest p sv. bind_param u = Inr p \<and> bind_param s = Inr sv \<and>
               oldest \<in> set (undelivered_for rd p (messages db)) \<and>
               (\<forall>r \<in> set (undelivered_for rd p (messages db)).
                   created_at oldest \<le> created_at r) \<and>
               messages db' =
                 remove1 oldest (messages db) @
                   [\<lparr>msg_id = next_id db, sender_id = integer_affinity rd sv,
                     recipient_id = integer_affinity rd p, room_id = None,
                     message_type = ''offline'', content = Some m, delivered = False,
                     created_at = now, delivered_at = None\<rparr>] \<and>
               get_queue_size rd db' u = Inr (k, db')"
    by blast
qed

lemma two_queued_run:
  "two_queued = queue_run integer_reader 2
      [AddMessage (PyInt 7) (PyStr ''a'') (PyInt 2) 30,
       AddMessage (PyInt 7) (PyStr ''b'') (PyInt 2) 10]"
  by (simp add: two_queued_def queue_run_def add_message_def empty_db_def next_id_def
        undelivered_for_def for_recipient_def integer_affinity_def)

lemma two_queued_add:
  "add_message integer_reader 2 two_queued (PyInt 7) (PyStr ''c'') (PyInt 2) 40 =
     Inr (3, \<lparr>messages =
        [\<lparr>msg_id = 1, sender_id = SqlInt 2, recipient_id = SqlInt 7, room_id = None,
          message_type = ''offline'', content = Some (PyStr ''a''), delivered = False,
          created_at = 30, delivered_at = None\<rparr>,
         \<lparr>msg_id = 3, sender_id = SqlInt 2, recipient_id = SqlInt 7, room_id = None,
          message_type = ''offline'', content = Some (PyStr ''c''), delivered = False,
          created_at = 40, delivered_at = None\<rparr>],
      seq = 3\<rparr>)"
  by (simp add: two_queued_def add_message_def next_id_def undelivered_for_def for_recipient_def
        integer_affinity_def delete_oldest_def select_undelivered_def)

theorem queue_bounded_oldest_evicted_witness:
  "(0::int) < 2 \<and>
   get_queue_size integer_reader two_queued (PyInt 7) = Inr (2, two_queued) \<and>
   map created_at (messages two_queued) = [30, 10] \<and>
   add_message integer_reader 2 two_queued (PyInt 7) (PyStr ''c'') (PyInt 2) 40 =
     Inr (3, \<lparr>messages =
        [\<lparr>msg_id = 1, sender_id = SqlInt 2, recipient_id = SqlInt 7, room_id = None,
          message_type = ''offline'', content = Some (PyStr ''a''), delivered = False,
          created_at = 30, delivered_at = None\<rparr>,
         \<lparr>msg_id = 3, sender_id = SqlInt 2, recipient_id = SqlInt 7, room_id = None,
          message_type = ''offline'', content = Some (PyStr ''c''), delivered = False,
          created_at = 40, delivered_at = None\<rparr>],
      seq = 3\<rparr>)"
proof -
  have pos: "(0::int) < 2" by simp
  have size: "get_queue_size integer_reader two_queued (PyInt 7) = Inr (2, two_queued)"
    by (simp add: get_queue_size_def two_queued_def undelivered_for_def for_recipient_def
          integer_affinity_def)
  show ?thesis
    using queue_bounded_oldest_evicted[OF pos two_queued_run, of "PyInt 7" "PyStr ''c''" "PyInt 2" 40]
      size two_queued_add
    by (simp add: two_queued_def)
qed

text \<open>
  C2 as stated fails for a bound of 0: the enqueue on the empty table finds nothing to
  delete and inserts, so the recipient holds one undelivered message, more than the bound.
\<close>

theorem queue_bound_zero_counterexample:
  "get_queue_size integer_reader empty_db (PyInt 7) = Inr (0, empty_db) \<and>
   add_message integer_reader 0 empty_db (PyInt 7) (PyDict []) PyNone 10 = Inr (1, one_queued) \<and>
   get_queue_size integer_reader one_queued (PyInt 7) = Inr (1, one_queued)"
  by (simp add: get_queue_size_def add_message_def empty_db_def one_queued_def next_id_def
        undelivered_for_def for_recipient_def integer_affinity_def delete_oldest_def
        select_undelivered_def)

section \<open>Reads and writes of the messages table\<close>

lemma undelivered_ids_mark_rows:
  "map msg_id (filter (\<lambda>r. \<not> delivered r)
      (map (\<lambda>r. if msg_id r = j then r\<lparr>delivered := True, delivered_at := Some t\<rparr> else r) rows)) =
   filter (\<lambda>i. i \<noteq> j) (map msg_id (filter (\<lambda>r. \<not> delivered r) rows))"
  by (induction rows) simp_all

lemma undelivered_ids_mark:
  "undelivered_ids (mark_delivered db j t) = undelivered_ids db - {j}"
proof -
  have "set (filter (\<lambda>i. i \<noteq> j) xs) = set xs - {j}" for xs :: "nat list"
    by auto
  then show ?thesis
    unfolding undelivered_ids_def
    by (simp only: mark_delivered_rows undelivered_ids_mark_rows)
qed

lemma store_mark_is_mark: "store_mark_delivered db i t = mark_delivered db i t"
  by (simp add: store_mark_delivered_def mark_delivered_def)

lemma undelivered_ids_add_keep:
  assumes a: "add_message rd n db w m s t = Inr (j, db')"
    and i: "i \<in> undelivered_ids db" "i \<notin> undelivered_ids db'"
  shows "\<exists>p oldest rest. bind_param w = Inr p \<and>
           n \<le> int (length (undelivered_for rd p (messages db))) \<and>
           select_undelivered rd db p = oldest # rest \<and> msg_id oldest = i"
proof -
  from add_message_Inr[OF a] obtain p sv where p: "bind_param w = Inr p"
    and rows: "messages db' =
             (if n \<le> int (length (undelivered_for rd p (messages db)))
              then delete_oldest rd db p else messages db) @
             [\<lparr>msg_id = next_id db, sender_id = integer_affinity rd sv,
               recipient_id = integer_affinity rd p, room_id = None,
               message_type = ''offline'', content = Some m, delivered = False,
               created_at = t, delivered_at = None\<rparr>]"
    by blast
  show ?thesis
  proof (cases "n \<le> int (length (undelivered_for rd p (messages db)))")
    case False
    then show ?thesis using i rows by (auto simp: undelivered_ids_def)
  next
    case True
    show ?thesis
    proof (cases "select_undelivered rd db p")
      case Nil
      then show ?thesis using i rows True
        by (auto simp: undelivered_ids_def delete_oldest_def)
    next
      case (Cons oldest rest)
      then have "msg_id oldest = i" using i rows True
        by (auto simp: undelivered_ids_def delete_oldest_def)
      with Cons True p show ?thesis by simp
    qed
  qed
qed

lemma undelivered_ids_save_keep:
  assumes "save_message rd db s r room mtype c now = Inr (j, db')"
  shows "undelivered_ids db \<subseteq> undelivered_ids db'"
  using assms
  by (auto simp: save_message_def Let_def undelivered_ids_def split: sum.splits)

lemma undelivered_ids_sweep:
  assumes d: "delete_old_messages db days now = Inr (k, db')"
    and i: "i \<in> undelivered_ids db" "i \<notin> undelivered_ids db'"
  shows "0 \<le> days \<and>
         (\<exists>r \<in> set (messages db). msg_id r = i \<and> \<not> delivered r \<and>
              int (created_at r) < int now - days * 86400)"
proof (cases "days < 0")
  case True
  with d i show ?thesis by (auto simp: delete_old_messages_def split: if_splits)
next
  case False
  with d have rows: "messages db' =
      filter (\<lambda>r. \<not> (int (created_at r) < int now - days * 86400)) (messages db)"
    by (auto simp: delete_old_messages_def Let_def split: if_splits)
  from i(1) obtain r where r: "r \<in> set (messages db)" "msg_id r = i" "\<not> delivered r"
    by (auto simp: undelivered_ids_def)
  have "int (created_at r) < int now - days * 86400"
  proof (rule ccontr)
    assume "\<not> int (created_at r) < int now - days * 86400"
    with r have "i \<in> undelivered_ids db'"
      by (auto simp: undelivered_ids_def rows image_iff)
    with i(2) show False by simp
  qed
  with r False show ?thesis by auto
qed

lemma get_messages_same: "get_messages rd db u = Inr (msgs, db') \<Longrightarrow> db' = db"
  by (auto simp: get_messages_def split: sum.splits)

lemma get_queue_size_same: "get_queue_size rd db u = Inr (k, db') \<Longrightarrow> db' = db"
  by (auto simp: get_queue_size_def split: sum.splits)

lemma get_undelivered_same: "get_undelivered_messages rd db u = Inr (msgs, db') \<Longrightarrow> db' = db"
  by (auto simp: get_undelivered_messages_def split: sum.splits)

lemma get_messages_step: "table_step rd n db (Queue (GetMessages u)) = db"
  using get_messages_same[of rd db u] by (auto split: sum.splits)

lemma get_messages_fold:
  "foldl (table_step rd n) db (replicate k (Queue (GetMessages u))) = db"
  by (induction k) (simp_all only: replicate.simps foldl.simps get_messages_step)

text \<open>
  C10, as amended. Draining is a pure read: a \<open>get_messages\<close> call that returns leaves the
  table it was given (rows, delivered flags, timestamps), one that raises has not touched
  it, and so does \<open>get_queue_size\<close>; any number of \<open>get_messages\<close> calls leaves the table
  and every queue size as they were. Over all calls of the repository on the messages
  table, an undelivered row stops being undelivered only through \<open>mark_delivered\<close> of its
  id (the queue's or the store's), through the eviction of an enqueue at capacity, which
  removes the first row of the recipient's drain order, or through the store's sweep
  \<open>delete_old_messages\<close>, which removes rows older than its bound.
\<close>

theorem get_messages_is_read_only:
  "(\<forall>msgs db'. get_messages rd db u = Inr (msgs, db') \<longrightarrow> db' = db) \<and>
   (\<forall>k db'. get_queue_size rd db u = Inr (k, db') \<longrightarrow> db' = db) \<and>
   foldl (table_step rd n) db (replicate k (Queue (GetMessages u))) = db \<and>
   (i \<in> undelivered_ids db \<and> i \<notin> undelivered_ids (table_step rd n db x) \<longrightarrow>
      (\<exists>t. x = Queue (MarkDelivered i t) \<or> x = Store (StoreMarkDelivered i t)) \<or>
      (\<exists>w m s t p oldest rest. x = Queue (AddMessage w m s t) \<and> bind_param w = Inr p \<and>
          n \<le> int (length (undelivered_for rd p (messages db))) \<and>
          select_undelivered rd db p = oldest # rest \<and> msg_id oldest = i) \<or>
      (\<exists>days now r. x = Store (DeleteOld days now) \<and> 0 \<le> days \<and> r \<in> set (messages db) \<and>
          msg_id r = i \<and> \<not> delivered r \<and> int (created_at r) < int now - days * 86400))"
proof (intro conjI allI impI)
  fix msgs db'
  assume "get_messages rd db u = Inr (msgs, db')"
  then show "db' = db" by (rule get_messages_same)
next
  fix k db'
  assume "get_queue_size rd db u = Inr (k, db')"
  then show "db' = db" by (rule get_queue_size_same)
next
  show "foldl (table_step rd n) db (replicate k (Queue (GetMessages u))) = db"
    by (rule get_messages_fold)
next
  assume a: "i \<in> undelivered_ids db \<and> i \<notin> undelivered_ids (table_step rd n db x)"
  then have i: "i \<in> undelivered_ids db" and j: "i \<notin> undelivered_ids (table_step rd n db x)"
    by simp_all
  let ?goal = "(\<exists>t. x = Queue (MarkDelivered i t) \<or> x = Store (StoreMarkDelivered i t)) \<or>
      (\<exists>w m s t p oldest rest. x = Queue (AddMessage w m s t) \<and> bind_param w = Inr p \<and>
          n \<le> int (length (undelivered_for rd p (messages db))) \<and>
          select_undelivered rd db p = oldest # rest \<and> msg_id oldest = i) \<or>
      (\<exists>days now r. x = Store (DeleteOld days now) \<and> 0 \<le> days \<and> r \<in> set (messages db) \<and>
          msg_id r = i \<and> \<not> delivered r \<and> int (created_at r) < int now - days * 86400)"
  show ?goal
  proof (cases x)
    case (Queue q)
    show ?thesis
    proof (cases q)
      case (AddMessage w m s t)
      show ?thesis
      proof (cases "add_message rd n db w m s t")
        case (Inl e)
        with Queue AddMessage i j show ?thesis by simp
      next
        case (Inr res)
        obtain l db' where res: "res = (l, db')" by (cases res)
        with Inr Queue AddMessage j have "i \<notin> undelivered_ids db'" by simp
        from undelivered_ids_add_keep[OF Inr[unfolded res] i this] Queue AddMessage
        show ?thesis by blast
      qed
    next
      case (GetMessages w)
      with Queue i j get_messages_same[of rd db w] show ?thesis
        by (auto split: sum.splits)
    next
      case (MarkDelivered l t)
      with Queue i j show ?thesis by (auto simp: undelivered_ids_mark)
    next
      case (GetQueueSize w)
      with Queue i j get_queue_size_same[of rd db w] show ?thesis
        by (auto split: sum.splits)
    qed
  next
    case (Store q)
    show ?thesis
    proof (cases q)
      case (SaveMessage s r room mtype c now)
      show ?thesis
      proof (cases "save_message rd db s r room mtype c now")
        case (Inl e)
        with Store SaveMessage i j show ?thesis by simp
      next
        case (Inr res)
        obtain l db' where res: "res = (l, db')" by (cases res)
        from undelivered_ids_save_keep[OF Inr[unfolded res]] i have "i \<in> undelivered_ids db'"
          by blast
        with Inr res Store SaveMessage j show ?thesis by simp
      qed
    next
      case (GetUndelivered w)
      with Store i j get_undelivered_same[of rd db w] show ?thesis
        by (auto split: sum.splits)
    next
      case (StoreMarkDelivered l t)
      with Store i j show ?thesis by (auto simp: undelivered_ids_mark store_mark_is_mark)
    next
      case (DeleteOld days now)
      show ?thesis
      proof (cases "delete_old_messages db days now")
        case (Inl e)
        with Store DeleteOld i j show ?thesis by simp
      next
        case (Inr res)
        obtain l db' where res: "res = (l, db')" by (cases res)
        with Inr Store DeleteOld j have "i \<notin> undelivered_ids db'" by simp
        from undelivered_ids_sweep[OF Inr[unfolded res] i this] Store DeleteOld
        show ?thesis by blast
      qed
    qed
  qed
qed

theorem get_messages_is_read_only_witness:
  "get_messages integer_reader mixed_queue (PyInt 7) =
     Inr ([\<lparr>q_id = 3, q_sender_id = PyNone, q_content = PyDict [], q_created_at = 10\<rparr>,
           \<lparr>q_id = 1, q_sender_id = PyInt 2, q_content = PyStr ''a'', q_created_at = 30\<rparr>],
          mixed_queue) \<and>
   foldl (table_step integer_reader 2) mixed_queue (replicate 3 (Queue (GetMessages (PyInt 7)))) =
     mixed_queue \<and>
   undelivered_ids mixed_queue = {1, 2, 3} \<and>
   undelivered_ids (table_step integer_reader 2 mixed_queue (Queue (MarkDelivered 3 50))) = {1, 2} \<and>
   undelivered_ids (table_step integer_reader 2 mixed_queue
                      (Queue (AddMessage (PyInt 7) (PyStr ''e'') PyNone 50))) = {1, 2, 5}"
proof -
  have g: "get_messages integer_reader mixed_queue (PyInt 7) =
     Inr ([\<lparr>q_id = 3, q_sender_id = PyNone, q_content = PyDict [], q_created_at = 10\<rparr>,
           \<lparr>q_id = 1, q_sender_id = PyInt 2, q_content = PyStr ''a'', q_created_at = 30\<rparr>],
          mixed_queue)"
    by (simp add: get_messages_def select_undelivered_def undelivered_for_def for_recipient_def
          integer_affinity_def mixed_queue_def row_message_def row_content_def)
  have ids: "undelivered_ids mixed_queue = {1, 2, 3}"
    by (auto simp: undelivered_ids_def mixed_queue_def)
  have m: "undelivered_ids (table_step integer_reader 2 mixed_queue (Queue (MarkDelivered 3 50)))
             = {1, 2}"
    by (auto simp: undelivered_ids_mark ids)
  have a: "undelivered_ids (table_step integer_reader 2 mixed_queue
                      (Queue (AddMessage (PyInt 7) (PyStr ''e'') PyNone 50))) = {1, 2, 5}"
    by (auto simp: undelivered_ids_def mixed_queue_def add_message_def next_id_def
          undelivered_for_def for_recipient_def integer_affinity_def delete_oldest_def
          select_undelivered_def)
  from get_messages_is_read_only
         [of integer_reader mixed_queue "PyInt 7" 2 3 3 "Queue (MarkDelivered 3 50)"]
       g ids m a
  show ?thesis by simp
qed

text \<open>
  C10 as stated fails: the store's sweep deletes an undelivered row that was neither
  marked delivered nor evicted.
\<close>

theorem retention_sweep_counterexample:
  "undelivered_ids one_queued = {1} \<and>
   delete_old_messages one_queued 7 700000 = Inr (1, \<lparr>messages = [], seq = 1\<rparr>) \<and>
   undelivered_ids \<lparr>messages = [], seq = 1\<rparr> = {}"
  by (simp add: undelivered_ids_def one_queued_def delete_old_messages_def)

section \<open>Marking delivered\<close>

lemma mark_twice_rows:
  "map (\<lambda>r. if msg_id r = i then r\<lparr>delivered := True, delivered_at := Some t2\<rparr> else r)
     (map (\<lambda>r. if msg_id r = i then r\<lparr>delivered := True, delivered_at := Some t1\<rparr> else r) rows) =
   map (\<lambda>r. if msg_id r = i then r\<lparr>delivered := True, delivered_at := Some t2\<rparr> else r) rows"
  by (induction rows) simp_all

lemma mark_twice: "mark_delivered (mark_delivered db i t1) i t2 = mark_delivered db i t2"
  by (simp add: mark_delivered_def mark_twice_rows)

lemma mark_one_way_rows:
  "list_all2 (\<lambda>r r'. msg_id r' = msg_id r \<and> (delivered r \<longrightarrow> delivered r') \<and>
                       (delivered_at r \<noteq> None \<longrightarrow> delivered_at r' \<noteq> None))
     rows (map (\<lambda>r. if msg_id r = j then r\<lparr>delivered := True, delivered_at := Some t\<rparr> else r) rows)"
  by (induction rows) simp_all

lemma mark_sets_rows:
  assumes "r \<in> set (messages (mark_delivered db i t))" and "msg_id r = i"
  shows "delivered r \<and> delivered_at r = Some t"
proof -
  from assms(1) obtain x where x: "x \<in> set (messages db)"
      "r = (if msg_id x = i then x\<lparr>delivered := True, delivered_at := Some t\<rparr> else x)"
    by (auto simp: mark_delivered_def)
  show ?thesis
  proof (cases "msg_id x = i")
    case True
    with x(2) show ?thesis by simp
  next
    case False
    with x(2) assms(2) show ?thesis by simp
  qed
qed

lemma mark_one_way:
  "list_all2 (\<lambda>r r'. msg_id r' = msg_id r \<and> (delivered r \<longrightarrow> delivered r') \<and>
                       (delivered_at r \<noteq> None \<longrightarrow> delivered_at r' \<noteq> None))
     (messages db) (messages (mark_delivered db j t))"
  by (simp only: mark_delivered_rows mark_one_way_rows)

text \<open>
  C8, as amended. \<open>mark_delivered\<close> (of the queue and of the store alike) sets
  \<open>delivered\<close> and writes the clock reading of the call into \<open>delivered_at\<close> on every
  call. The flag is one-way: no call turns a delivered row undelivered or nulls a
  \<open>delivered_at\<close>. A second call on the same id leaves the table as a single call at the
  second clock reading would: \<open>delivered_at\<close> is overwritten, so the row stays as the first
  call left it exactly when both calls read the same time.
\<close>

theorem mark_delivered_overwrites_time:
  "mark_delivered (mark_delivered db i t1) i t2 = mark_delivered db i t2 \<and>
   store_mark_delivered db i t1 = mark_delivered db i t1 \<and>
   (\<forall>r \<in> set (messages (mark_delivered db i t2)).
       msg_id r = i \<longrightarrow> delivered r \<and> delivered_at r = Some t2) \<and>
   list_all2 (\<lambda>r r'. msg_id r' = msg_id r \<and> (delivered r \<longrightarrow> delivered r') \<and>
                       (delivered_at r \<noteq> None \<longrightarrow> delivered_at r' \<noteq> None))
     (messages db) (messages (mark_delivered db j t))"
proof (intro conjI ballI impI)
  show "mark_delivered (mark_delivered db i t1) i t2 = mark_delivered db i t2"
    by (rule mark_twice)
  show "store_mark_delivered db i t1 = mark_delivered db i t1"
    by (simp add: store_mark_delivered_def mark_delivered_def)
  show "delivered r" if "r \<in> set (messages (mark_delivered db i t2))" "msg_id r = i" for r
    using mark_sets_rows[OF that] by simp
  show "delivered_at r = Some t2" if "r \<in> set (messages (mark_delivered db i t2))" "msg_id r = i" for r
    using mark_sets_rows[OF that] by simp
  show "list_all2 (\<lambda>r r'. msg_id r' = msg_id r \<and> (delivered r \<longrightarrow> delivered r') \<and>
                       (delivered_at r \<noteq> None \<longrightarrow> delivered_at r' \<noteq> None))
     (messages db) (messages (mark_delivered db j t))"
    by (rule mark_one_way)
qed

theorem mark_delivered_overwrites_time_witness:
  "mark_delivered (mark_delivered one_queued 1 30) 1 40 = mark_delivered one_queued 1 40 \<and>
   map delivered_at (messages (mark_delivered one_queued 1 40)) = [Some 40] \<and>
   map delivered (messages (mark_delivered one_queued 1 40)) = [True]"
  using mark_delivered_overwrites_time[of one_queued 1 30 40 1 40]
  by (simp add: one_queued_def mark_delivered_def)

text \<open>
  C8 as stated fails: one message is queued, marked at time 30 and marked again at time 40;
  the stored \<open>delivered_at\<close> changes a second time.
\<close>

theorem mark_delivered_twice_counterexample:
  "add_message integer_reader 100 empty_db (PyInt 7) (PyDict []) PyNone 10 = Inr (1, one_queued) \<and>
   map delivered_at (messages (mark_delivered one_queued 1 30)) = [Some 30] \<and>
   map delivered_at (messages (mark_delivered (mark_delivered one_queued 1 30) 1 40)) = [Some 40] \<and>
   mark_delivered (mark_delivered one_queued 1 30) 1 40 \<noteq> mark_delivered one_queued 1 30"
  by (simp add: one_queued_def mark_delivered_def add_message_def empty_db_def next_id_def
        undelivered_for_def integer_affinity_def)

section \<open>Registering a connection\<close>

lemma add_connection_user_list:
  "user_connections (add_connection cm c u s t1 t2) u = Some (get_user_connections cm u @ [c])"
  by (simp add: add_connection_def get_user_connections_def)

lemma add_connection_changes: "add_connection cm c u s t1 t2 \<noteq> cm"
proof
  assume "add_connection cm c u s t1 t2 = cm"
  then have "user_connections (add_connection cm c u s t1 t2) u = user_connections cm u"
    by simp
  then show False
    by (auto simp: add_connection_user_list get_user_connections_def split: option.splits)
qed

text \<open>
  C9, as amended. Registering under a connection id that is already present does not fail
  and changes the registry: the record stored for the id is replaced by the new one, the id
  is appended to the new user's list, and every other record and every other user's list
  (the previous owner's included) stays as it was.
\<close>

theorem register_present_id_overwrites:
  assumes "connections cm c = Some old"
  shows "add_connection cm c u s t1 t2 \<noteq> cm \<and>
         connections (add_connection cm c u s t1 t2) c =
           Some \<lparr>connection_id = c, user_id = u, sid = s, connected_at = t1, last_activity = t2\<rparr> \<and>
         get_user_connections (add_connection cm c u s t1 t2) u = get_user_connections cm u @ [c] \<and>
         (\<forall>d. d \<noteq> c \<longrightarrow> connections (add_connection cm c u s t1 t2) d = connections cm d) \<and>
         (\<forall>v. v \<noteq> u \<longrightarrow>
            get_user_connections (add_connection cm c u s t1 t2) v = get_user_connections cm v)"
  using add_connection_changes[of cm c u s t1 t2]
  by (simp add: add_connection_def get_user_connections_def)

theorem register_present_id_overwrites_witness:
  "connections one_connection ''c1'' =
     Some \<lparr>connection_id = ''c1'', user_id = 1, sid = ''s1'', connected_at = 0, last_activity = 0\<rparr> \<and>
   connections (add_connection one_connection ''c1'' 2 ''s2'' 5 5) ''c1'' =
     Some \<lparr>connection_id = ''c1'', user_id = 2, sid = ''s2'', connected_at = 5, last_activity = 5\<rparr> \<and>
   get_user_connections (add_connection one_connection ''c1'' 2 ''s2'' 5 5) 2 = [''c1''] \<and>
   get_user_connections (add_connection one_connection ''c1'' 2 ''s2'' 5 5) 1 = [''c1'']"
  using register_present_id_overwrites[of one_connection "''c1''"
      "\<lparr>connection_id = ''c1'', user_id = 1, sid = ''s1'', connected_at = 0, last_activity = 0\<rparr>"
      2 "''s2''" 5 5]
  by (simp add: one_connection_def add_connection_def new_manager_def get_user_connections_def)

text \<open>
  C9 as stated fails: \<open>c1\<close> is registered for user 1 and then again for user 2; the second
  call goes through and the registry is not the one before it.
\<close>

theorem register_duplicate_counterexample:
  "connections one_connection ''c1'' \<noteq> None \<and>
   add_connection one_connection ''c1'' 2 ''s2'' 5 5 \<noteq> one_connection \<and>
   map_option user_id (connections one_connection ''c1'') = Some 1 \<and>
   map_option user_id (connections (add_connection one_connection ''c1'' 2 ''s2'' 5 5) ''c1'') = Some 2 \<and>
   user_connections one_connection 2 = None \<and>
   user_connections (add_connection one_connection ''c1'' 2 ''s2'' 5 5) 2 = Some [''c1'']"
  using add_connection_changes[of one_connection "''c1''" 2 "''s2''" 5 5]
  by (simp add: one_connection_def add_connection_def new_manager_def)

section \<open>Direct messages\<close>

lemma emit_to_connections_eq:
  "emit_to_connections cm m cs =
     map (\<lambda>i. \<lparr>e_event = ''message'', e_payload = PyDict m, e_room = sid i\<rparr>)
       (List.map_filter (connections cm) cs)"
  by (induction cs) (simp_all add: map_filter_simps get_connection_def split: option.splits)

lemma emit_all_present:
  "\<forall>c \<in> set cs. connections cm c \<noteq> None \<Longrightarrow>
   map (\<lambda>e. Some (e_room e)) (emit_to_connections cm m cs) =
     map (\<lambda>c. map_option sid (connections cm c)) cs"
  by (induction cs) (auto simp: get_connection_def)

lemma emit_some_present:
  "cs \<noteq> [] \<Longrightarrow> \<forall>c \<in> set cs. connections cm c \<noteq> None \<Longrightarrow> emit_to_connections cm m cs \<noteq> []"
  by (cases cs) (auto simp: get_connection_def)

lemma save_message_bound:
  assumes "bind_param sender = Inr s" "bind_param rcpt = Inr p"
  shows "save_message rd db sender rcpt room mtype cont now =
     Inr (next_id db,
          \<lparr>messages = messages db @
             [\<lparr>msg_id = next_id db, sender_id = integer_affinity rd s,
               recipient_id = integer_affinity rd p, room_id = room,
               message_type = mtype, content = (if truthy cont then Some cont else None),
               delivered = False, created_at = now, delivered_at = None\<rparr>],
           seq = next_id db\<rparr>)"
  using assms by (simp add: save_message_def Let_def)

lemma save_message_refused_sender:
  "bind_param sender = Inl e \<Longrightarrow> save_message rd db sender rcpt room mtype cont now = Inl e"
  by (simp add: save_message_def Let_def)

lemma save_message_refused_recipient:
  "bind_param sender = Inr s \<Longrightarrow> bind_param rcpt = Inl e \<Longrightarrow>
   save_message rd db sender rcpt room mtype cont now = Inl e"
  by (simp add: save_message_def Let_def)

lemma save_message_changes:
  assumes "save_message rd db sender rcpt room mtype cont now = Inr (i, db')"
  shows "db' \<noteq> db"
proof
  assume "db' = db"
  with assms have "length (messages db') = length (messages db)" by simp
  moreover from assms have "length (messages db') = Suc (length (messages db))"
    by (auto simp: save_message_def Let_def split: sum.splits)
  ultimately show False by simp
qed

lemma send_unhashable: "\<not> hashable r \<Longrightarrow> send_to_user rd cm db r m now = Inl TypeError"
  by (simp add: send_to_user_def)

lemma send_online:
  "hashable r \<Longrightarrow> get_user_connections cm (dict_key r) \<noteq> [] \<Longrightarrow>
   send_to_user rd cm db r m now =
     Inr (emit_to_connections cm m (get_user_connections cm (dict_key r)), db)"
  by (simp add: send_to_user_def)

lemma send_offline:
  "hashable r \<Longrightarrow> get_user_connections cm (dict_key r) = [] \<Longrightarrow>
   send_to_user rd cm db r m now =
     (case save_message rd db (dict_get m ''sender_id'') r None ''direct'' (PyDict m) now of
        Inl e \<Rightarrow> Inl e
      | Inr (i, db') \<Rightarrow> Inr ([], db'))"
  by (simp add: send_to_user_def)

lemma consistent_new: "manager_consistent new_manager"
  by (simp add: manager_consistent_def new_manager_def)

lemma consistent_listed:
  assumes "manager_consistent cm" "user_connections cm u = Some cs" "c \<in> set cs"
  shows "\<exists>i. connections cm c = Some i \<and> user_id i = u"
  using assms unfolding manager_consistent_def by blast

lemma consistent_add:
  assumes inv: "manager_consistent cm" and fresh: "connections cm c = None"
  shows "manager_consistent (add_connection cm c u s t1 t2)"
  unfolding manager_consistent_def
proof (intro allI impI)
  fix v cs
  assume l: "user_connections (add_connection cm c u s t1 t2) v = Some cs"
  have notin: "c \<notin> set ds" if "user_connections cm w = Some ds" for w ds
    using consistent_listed[OF inv that] fresh by fastforce
  show "cs \<noteq> [] \<and> distinct cs \<and>
        (\<forall>d \<in> set cs. \<exists>i. connections (add_connection cm c u s t1 t2) d = Some i \<and> user_id i = v)"
  proof (cases "v = u")
    case True
    then have cs: "cs = get_user_connections cm u @ [c]"
      using l by (simp add: add_connection_user_list)
    show ?thesis
    proof (cases "user_connections cm u")
      case None
      with cs True show ?thesis
        by (simp add: get_user_connections_def add_connection_def)
    next
      case (Some ds)
      then have ds: "distinct ds" "c \<notin> set ds"
          "\<forall>d \<in> set ds. \<exists>i. connections cm d = Some i \<and> user_id i = u"
        using inv notin[OF Some] unfolding manager_consistent_def by blast+
      with cs True Some show ?thesis
        by (auto simp: get_user_connections_def add_connection_def)
    qed
  next
    case False
    then have old: "user_connections cm v = Some cs"
      using l by (simp add: add_connection_def)
    then have "cs \<noteq> []" "distinct cs" "c \<notin> set cs"
        "\<forall>d \<in> set cs. \<exists>i. connections cm d = Some i \<and> user_id i = v"
      using inv notin[OF old] unfolding manager_consistent_def by blast+
    then show ?thesis
      by (auto simp: add_connection_def)
  qed
qed

lemma consistent_remove:
  assumes inv: "manager_consistent cm" and r: "remove_connection cm c = Inr cm'"
  shows "manager_consistent cm'"
proof (cases "connections cm c")
  case None
  with r inv show ?thesis by (simp add: remove_connection_def)
next
  case (Some info)
  define u where "u = user_id info"
  have owner: "w = u" if "user_connections cm w = Some ds" "c \<in> set ds" for w ds
    using consistent_listed[OF inv that] Some by (simp add: u_def)
  show ?thesis
  proof (cases "user_connections cm u")
    case None
    then have cm': "cm' = cm\<lparr>connections := (connections cm)(c := None)\<rparr>"
      using r Some by (simp add: remove_connection_def u_def)
    show ?thesis unfolding manager_consistent_def
    proof (intro allI impI)
      fix v cs
      assume "user_connections cm' v = Some cs"
      then have old: "user_connections cm v = Some cs" by (simp add: cm')
      then have "c \<notin> set cs" using owner[OF old] None by auto
      moreover have "cs \<noteq> []" "distinct cs"
          "\<forall>d \<in> set cs. \<exists>i. connections cm d = Some i \<and> user_id i = v"
        using inv old unfolding manager_consistent_def by blast+
      ultimately show "cs \<noteq> [] \<and> distinct cs \<and>
          (\<forall>d \<in> set cs. \<exists>i. connections cm' d = Some i \<and> user_id i = v)"
        by (auto simp: cm')
    qed
  next
    case Some2: (Some ds)
    have mem: "c \<in> set ds"
      using r Some Some2 by (auto simp: remove_connection_def u_def Let_def split: if_splits)
    have ds: "distinct ds" "\<forall>d \<in> set ds. \<exists>i. connections cm d = Some i \<and> user_id i = u"
      using inv Some2 unfolding manager_consistent_def by blast+
    have cm': "cm' = \<lparr>connections = (connections cm)(c := None),
                      user_connections = (if remove1 c ds = [] then (user_connections cm)(u := None)
                                          else (user_connections cm)(u \<mapsto> remove1 c ds))\<rparr>"
      using r Some Some2 mem by (auto simp: remove_connection_def u_def Let_def)
    show ?thesis unfolding manager_consistent_def
    proof (intro allI impI)
      fix v cs
      assume l: "user_connections cm' v = Some cs"
      show "cs \<noteq> [] \<and> distinct cs \<and>
          (\<forall>d \<in> set cs. \<exists>i. connections cm' d = Some i \<and> user_id i = v)"
      proof (cases "v = u")
        case True
        with l have cs: "cs = remove1 c ds" "remove1 c ds \<noteq> []"
          by (auto simp: cm' split: if_splits)
        have "c \<notin> set (remove1 c ds)" using ds(1) by simp
        moreover have "set (remove1 c ds) \<subseteq> set ds" by (rule set_remove1_subset)
        ultimately show ?thesis using cs ds True
          by (auto simp: cm')
      next
        case False
        with l have old: "user_connections cm v = Some cs"
          by (auto simp: cm' split: if_splits)
        then have "c \<notin> set cs" using owner[OF old] False by auto
        moreover have "cs \<noteq> []" "distinct cs"
            "\<forall>d \<in> set cs. \<exists>i. connections cm d = Some i \<and> user_id i = v"
          using inv old unfolding manager_consistent_def by blast+
        ultimately show ?thesis by (auto simp: cm')
      qed
    qed
  qed
qed

lemma consistent_run:
  "manager_consistent cm \<Longrightarrow> registers_absent cm ops \<Longrightarrow> manager_run cm ops = Inr cm' \<Longrightarrow>
   manager_consistent cm'"
proof (induction ops arbitrary: cm)
  case Nil
  then show ?case by simp
next
  case (Cons x ops)
  show ?case
  proof (cases x)
    case (Register c u s t1 t2)
    with Cons.prems have "connections cm c = None"
        "registers_absent (add_connection cm c u s t1 t2) ops"
        "manager_run (add_connection cm c u s t1 t2) ops = Inr cm'"
      by simp_all
    with Cons.IH consistent_add[OF Cons.prems(1)] show ?thesis by blast
  next
    case (Deregister c)
    with Cons.prems(3) obtain cm1 where s: "remove_connection cm c = Inr cm1"
        "manager_run cm1 ops = Inr cm'"
      by (auto split: sum.splits)
    with Cons.prems(2) Deregister have "registers_absent cm1 ops" by simp
    with Cons.IH consistent_remove[OF Cons.prems(1) s(1)] s(2) show ?thesis by blast
  qed
qed

lemma reachable_listed_present:
  assumes "registers_absent new_manager ops" "manager_run new_manager ops = Inr cm"
  shows "\<forall>c \<in> set (get_user_connections cm r). connections cm c \<noteq> None"
proof -
  have inv: "manager_consistent cm"
    using consistent_run[OF consistent_new assms] .
  show ?thesis
  proof (cases "user_connections cm r")
    case None
    then show ?thesis by (simp add: get_user_connections_def)
  next
    case (Some cs)
    then show ?thesis using consistent_listed[OF inv Some]
      by (auto simp: get_user_connections_def)
  qed
qed

text \<open>
  C1, as amended. For a direct message to \<open>r\<close> (a value that can be a dictionary key):
  when \<open>r\<close>'s connection list is not empty, the message is emitted once for every listed id
  that has a record, to that record's session, and nothing is saved; when the list is
  empty, the message is saved and nothing is emitted, unless \<open>sqlite3\<close> refuses the
  message's \<open>sender_id\<close> or \<open>r\<close>, in which case the call raises and the message is neither
  emitted nor saved. Never both. Exactly one of the two happens, with every listed
  connection receiving the message, when every listed id of \<open>r\<close> has a record and, for an
  \<open>r\<close> without connections, sender and recipient can be bound. Every listed id has a
  record in every registry built from the empty one by removals and by registrations of
  absent ids.
\<close>

theorem send_to_user_one_path:
  "(\<not> hashable r \<longrightarrow> send_to_user rd cm db r m now = Inl TypeError) \<and>
   (hashable r \<and> get_user_connections cm (dict_key r) \<noteq> [] \<longrightarrow>
      send_to_user rd cm db r m now =
        Inr (map (\<lambda>i. \<lparr>e_event = ''message'', e_payload = PyDict m, e_room = sid i\<rparr>)
               (List.map_filter (connections cm) (get_user_connections cm (dict_key r))), db)) \<and>
   (hashable r \<and> get_user_connections cm (dict_key r) = [] \<longrightarrow>
      (\<forall>s p. bind_param (dict_get m ''sender_id'') = Inr s \<and> bind_param r = Inr p \<longrightarrow>
         send_to_user rd cm db r m now =
           Inr ([], \<lparr>messages = messages db @
                       [\<lparr>msg_id = next_id db, sender_id = integer_affinity rd s,
                         recipient_id = integer_affinity rd p, room_id = None,
                         message_type = ''direct'',
                         content = (if m \<noteq> [] then Some (PyDict m) else None),
                         delivered = False, created_at = now, delivered_at = None\<rparr>],
                     seq = next_id db\<rparr>)) \<and>
      (\<forall>e. bind_param (dict_get m ''sender_id'') = Inl e \<longrightarrow>
         send_to_user rd cm db r m now = Inl e) \<and>
      (\<forall>s e. bind_param (dict_get m ''sender_id'') = Inr s \<and> bind_param r = Inl e \<longrightarrow>
         send_to_user rd cm db r m now = Inl e)) \<and>
   (\<forall>emits db'. send_to_user rd cm db r m now = Inr (emits, db') \<longrightarrow>
      \<not> (emits \<noteq> [] \<and> db' \<noteq> db)) \<and>
   (hashable r \<and> (\<forall>c \<in> set (get_user_connections cm (dict_key r)). connections cm c \<noteq> None) \<and>
    (get_user_connections cm (dict_key r) = [] \<longrightarrow>
       (\<exists>s. bind_param (dict_get m ''sender_id'') = Inr s) \<and> (\<exists>p. bind_param r = Inr p)) \<longrightarrow>
      (\<exists>emits db'. send_to_user rd cm db r m now = Inr (emits, db') \<and>
         (emits \<noteq> []) \<noteq> (db' \<noteq> db) \<and>
         (get_user_connections cm (dict_key r) \<noteq> [] \<longrightarrow>
            map (\<lambda>e. Some (e_room e)) emits =
              map (\<lambda>c. map_option sid (connections cm c)) (get_user_connections cm (dict_key r))))) \<and>
   (registers_absent new_manager ops \<and> manager_run new_manager ops = Inr cm \<longrightarrow>
      (\<forall>c \<in> set (get_user_connections cm (dict_key r)). connections cm c \<noteq> None))"
proof (intro conjI impI allI)
  show "send_to_user rd cm db r m now = Inl TypeError" if "\<not> hashable r"
    using that by (rule send_unhashable)
next
  assume "hashable r \<and> get_user_connections cm (dict_key r) \<noteq> []"
  then show "send_to_user rd cm db r m now =
        Inr (map (\<lambda>i. \<lparr>e_event = ''message'', e_payload = PyDict m, e_room = sid i\<rparr>)
               (List.map_filter (connections cm) (get_user_connections cm (dict_key r))), db)"
    by (simp add: send_online emit_to_connections_eq)
next
  fix s p
  assume h: "hashable r \<and> get_user_connections cm (dict_key r) = []"
    and b: "bind_param (dict_get m ''sender_id'') = Inr s \<and> bind_param r = Inr p"
  then show "send_to_user rd cm db r m now =
           Inr ([], \<lparr>messages = messages db @
                       [\<lparr>msg_id = next_id db, sender_id = integer_affinity rd s,
                         recipient_id = integer_affinity rd p, room_id = None,
                         message_type = ''direct'',
                         content = (if m \<noteq> [] then Some (PyDict m) else None),
                         delivered = False, created_at = now, delivered_at = None\<rparr>],
                     seq = next_id db\<rparr>)"
    by (simp add: send_offline save_message_bound)
next
  fix e
  assume "hashable r \<and> get_user_connections cm (dict_key r) = []"
    and "bind_param (dict_get m ''sender_id'') = Inl e"
  then show "send_to_user rd cm db r m now = Inl e"
    by (simp add: send_offline save_message_refused_sender)
next
  fix s e
  assume "hashable r \<and> get_user_connections cm (dict_key r) = []"
    and "bind_param (dict_get m ''sender_id'') = Inr s \<and> bind_param r = Inl e"
  then show "send_to_user rd cm db r m now = Inl e"
    by (simp add: send_offline save_message_refused_recipient)
next
  fix emits db'
  assume s: "send_to_user rd cm db r m now = Inr (emits, db')"
  show "\<not> (emits \<noteq> [] \<and> db' \<noteq> db)"
  proof (cases "hashable r")
    case False
    with s show ?thesis by (simp add: send_unhashable)
  next
    case True
    show ?thesis
    proof (cases "get_user_connections cm (dict_key r) = []")
      case True
      with s \<open>hashable r\<close> show ?thesis
        by (auto simp: send_offline split: sum.splits)
    next
      case False
      with s \<open>hashable r\<close> show ?thesis by (simp add: send_online)
    qed
  qed
next
  assume h: "hashable r \<and>
      (\<forall>c \<in> set (get_user_connections cm (dict_key r)). connections cm c \<noteq> None) \<and>
      (get_user_connections cm (dict_key r) = [] \<longrightarrow>
         (\<exists>s. bind_param (dict_get m ''sender_id'') = Inr s) \<and> (\<exists>p. bind_param r = Inr p))"
  show "\<exists>emits db'. send_to_user rd cm db r m now = Inr (emits, db') \<and>
         (emits \<noteq> []) \<noteq> (db' \<noteq> db) \<and>
         (get_user_connections cm (dict_key r) \<noteq> [] \<longrightarrow>
            map (\<lambda>e. Some (e_room e)) emits =
              map (\<lambda>c. map_option sid (connections cm c)) (get_user_connections cm (dict_key r)))"
  proof (cases "get_user_connections cm (dict_key r) = []")
    case True
    with h obtain s p where b: "bind_param (dict_get m ''sender_id'') = Inr s"
        "bind_param r = Inr p" by blast
    have sv: "save_message rd db (dict_get m ''sender_id'') r None ''direct'' (PyDict m) now =
        Inr (next_id db,
          \<lparr>messages = messages db @
             [\<lparr>msg_id = next_id db, sender_id = integer_affinity rd s,
               recipient_id = integer_affinity rd p, room_id = None,
               message_type = ''direct'',
               content = (if truthy (PyDict m) then Some (PyDict m) else None),
               delivered = False, created_at = now, delivered_at = None\<rparr>],
           seq = next_id db\<rparr>)"
      by (rule save_message_bound[OF b])
    from save_message_changes[OF sv] True h sv show ?thesis
      by (simp add: send_offline)
  next
    case False
    with h have "emit_to_connections cm m (get_user_connections cm (dict_key r)) \<noteq> []"
      by (simp add: emit_some_present)
    with False h show ?thesis
      by (simp add: send_online emit_all_present)
  qed
next
  assume "registers_absent new_manager ops \<and> manager_run new_manager ops = Inr cm"
  then show "\<forall>c \<in> set (get_user_connections cm (dict_key r)). connections cm c \<noteq> None"
    using reachable_listed_present[of ops cm "dict_key r"] by blast
qed

theorem send_to_user_one_path_witness:
  "registers_absent new_manager
     [Register ''c1'' (PyInt 1) ''s1'' 0 0, Register ''c2'' (PyInt 1) ''s2'' 5 5] \<and>
   manager_run new_manager
     [Register ''c1'' (PyInt 1) ''s1'' 0 0, Register ''c2'' (PyInt 1) ''s2'' 5 5] =
     Inr two_connections \<and>
   send_to_user integer_reader two_connections empty_db (PyInt 1) hello 50 =
     Inr ([\<lparr>e_event = ''message'', e_payload = PyDict hello, e_room = ''s1''\<rparr>,
           \<lparr>e_event = ''message'', e_payload = PyDict hello, e_room = ''s2''\<rparr>], empty_db) \<and>
   send_to_user integer_reader two_connections empty_db (PyBool True) hello 50 =
     Inr ([\<lparr>e_event = ''message'', e_payload = PyDict hello, e_room = ''s1''\<rparr>,
           \<lparr>e_event = ''message'', e_payload = PyDict hello, e_room = ''s2''\<rparr>], empty_db) \<and>
   send_to_user integer_reader two_connections empty_db (PyInt 3) hello 50 =
     Inr ([], \<lparr>messages =
                 [\<lparr>msg_id = 1, sender_id = SqlInt 2, recipient_id = SqlInt 3, room_id = None,
                   message_type = ''direct'', content = Some (PyDict hello), delivered = False,
                   created_at = 50, delivered_at = None\<rparr>],
               seq = 1\<rparr>)"
  using send_to_user_one_path[of "PyInt 1" integer_reader two_connections empty_db hello 50
      "[Register ''c1'' (PyInt 1) ''s1'' 0 0, Register ''c2'' (PyInt 1) ''s2'' 5 5]"]
  by (simp add: two_connections_def add_connection_def new_manager_def send_to_user_def
        get_user_connections_def get_connection_def save_message_def empty_db_def next_id_def
        dict_get_def hello_def hashable_def integer_affinity_def)

text \<open>
  C1 as stated fails. After \<open>c1\<close> is registered for user 1, registered again for user 2 and
  removed, user 1 still lists \<open>c1\<close> but the record is gone: a message to user 1 is neither
  emitted nor saved. And a message whose \<open>sender_id\<close> is a list, sent to a user without
  connections, raises in the INSERT: it is neither emitted nor saved.
\<close>

theorem send_to_user_counterexample:
  "manager_run new_manager
      [Register ''c1'' (PyInt 1) ''s1'' 0 0, Register ''c1'' (PyInt 2) ''s2'' 5 5,
       Deregister ''c1''] =
     Inr dangling_manager \<and>
   get_user_connections dangling_manager (dict_key (PyInt 1)) = [''c1''] \<and>
   connections dangling_manager ''c1'' = None \<and>
   send_to_user integer_reader dangling_manager empty_db (PyInt 1) hello 50 = Inr ([], empty_db) \<and>
   get_user_connections dangling_manager (dict_key (PyInt 3)) = [] \<and>
   send_to_user integer_reader dangling_manager empty_db (PyInt 3) list_sender 50 =
     Inl ProgrammingError"
  by (simp add: dangling_manager_def add_connection_def remove_connection_def new_manager_def
        send_to_user_def get_user_connections_def get_connection_def fun_upd_twist
        hashable_def save_message_def dict_get_def list_sender_def)

section \<open>Connection limit\<close>

lemma pool_add_limit:
  "max_connections_per_user (snd (pool_add_connection p u c)) = max_connections_per_user p"
  by (simp add: pool_add_connection_def Let_def)

lemma pool_remove_limit:
  "max_connections_per_user (pool_remove_connection p u c) = max_connections_per_user p"
  by (simp add: pool_remove_connection_def Let_def split: option.splits)

lemma pool_step_limit: "max_connections_per_user (pool_step p x) = max_connections_per_user p"
  by (cases x) (simp_all add: pool_add_limit pool_remove_limit)

lemma pool_add_count:
  "get_user_connection_count (snd (pool_add_connection p u c)) v =
     (if v = u \<and> can_add_connection p u then Suc (get_user_connection_count p u)
      else get_user_connection_count p v)"
  by (simp add: pool_add_connection_def get_user_connection_count_def Let_def
        split: option.splits)

lemma remove1_last: "c \<in> set xs \<Longrightarrow> remove1 c xs = [] \<Longrightarrow> length xs = Suc 0"
  using length_remove1[of c xs] by (cases xs) (simp_all split: if_splits)

lemma pool_remove_count:
  "get_user_connection_count (pool_remove_connection p u c) v =
     (if v = u \<and> c \<in> set (case pool_user_connections p u of None \<Rightarrow> [] | Some cs \<Rightarrow> cs)
      then get_user_connection_count p u - 1 else get_user_connection_count p v)"
  by (auto simp: pool_remove_connection_def get_user_connection_count_def Let_def length_remove1
        remove1_last split: option.splits)

lemma can_add_below:
  "0 < max_connections_per_user p \<Longrightarrow>
   can_add_connection p u \<longleftrightarrow> int (get_user_connection_count p u) < max_connections_per_user p"
  by (simp add: can_add_connection_def get_user_connection_count_def split: option.splits)

lemma pool_step_bounded:
  assumes "0 < max_connections_per_user p"
    and "\<forall>v. int (get_user_connection_count p v) \<le> max_connections_per_user p"
  shows "int (get_user_connection_count (pool_step p x) v) \<le> max_connections_per_user p"
proof -
  have v: "int (get_user_connection_count p v) \<le> max_connections_per_user p"
    and u: "int (get_user_connection_count p w) \<le> max_connections_per_user p" for w
    using assms(2) by blast+
  show ?thesis
  proof (cases x)
    case (PoolAdd w c)
    then show ?thesis using v u[of w] can_add_below[OF assms(1), of w]
      by (simp add: pool_add_count)
  next
    case (PoolRemove w c)
    have "get_user_connection_count (pool_step p x) v \<le> get_user_connection_count p v"
      using PoolRemove by (simp add: pool_remove_count)
    then show ?thesis using v by linarith
  qed
qed

lemma pool_fold_bounded:
  "0 < max_connections_per_user p \<Longrightarrow>
   \<forall>v. int (get_user_connection_count p v) \<le> max_connections_per_user p \<Longrightarrow>
   int (get_user_connection_count (foldl pool_step p ops) v) \<le> max_connections_per_user p"
proof (induction ops arbitrary: p v)
  case Nil
  then show ?case by simp
next
  case (Cons x ops)
  have "\<forall>v. int (get_user_connection_count (pool_step p x) v)
            \<le> max_connections_per_user (pool_step p x)"
    using pool_step_bounded[OF Cons.prems] by (simp add: pool_step_limit)
  with Cons.IH[of "pool_step p x" v] Cons.prems(1) show ?case
    by (simp add: pool_step_limit)
qed

lemma pool_fold_limit:
  "max_connections_per_user (foldl pool_step p ops) = max_connections_per_user p"
  by (induction ops arbitrary: p) (simp_all add: pool_step_limit)

lemma pool_run_limit: "max_connections_per_user (pool_run limit ops) = limit"
  by (simp add: pool_run_def pool_fold_limit new_pool_def)

lemma pool_run_bounded:
  "0 < limit \<Longrightarrow> int (get_user_connection_count (pool_run limit ops) v) \<le> limit"
  using pool_fold_bounded[of "new_pool limit" ops v]
  by (simp add: pool_run_def new_pool_def get_user_connection_count_def)

text \<open>
  C3, as amended. With a per-user limit of at least 1, after any run of add and remove
  calls from the empty pool no user has more connections than the limit. An add for a user
  whose count equals the limit returns False and leaves the pool as it is; once one of that
  user's connections is removed, the next add for the user succeeds and brings the count
  back to the limit.
\<close>

theorem connection_limit_enforced:
  assumes "0 < limit" and "p = pool_run limit ops"
  shows "int (get_user_connection_count p u) \<le> limit \<and>
         (int (get_user_connection_count p u) = limit \<longrightarrow>
            pool_add_connection p u c = (False, p) \<and>
            (\<forall>cs d. pool_user_connections p u = Some cs \<and> d \<in> set cs \<longrightarrow>
               fst (pool_add_connection (pool_remove_connection p u d) u c) \<and>
               int (get_user_connection_count
                      (snd (pool_add_connection (pool_remove_connection p u d) u c)) u) = limit))"
proof (intro conjI impI allI)
  have lim: "max_connections_per_user p = limit"
    using assms(2) by (simp add: pool_run_limit)
  show "int (get_user_connection_count p u) \<le> limit"
    using assms by (simp add: pool_run_bounded)
  show "pool_add_connection p u c = (False, p)" if "int (get_user_connection_count p u) = limit"
    using that can_add_below[of p u] assms(1) lim by (simp add: pool_add_connection_def)
  fix cs d
  assume full: "int (get_user_connection_count p u) = limit"
    and d: "pool_user_connections p u = Some cs \<and> d \<in> set cs"
  let ?q = "pool_remove_connection p u d"
  have q: "get_user_connection_count ?q u = get_user_connection_count p u - 1"
    using d by (simp add: pool_remove_count)
  have pos: "0 < get_user_connection_count p u" using full assms(1) by simp
  have can: "can_add_connection ?q u"
    using can_add_below[of ?q u] q pos full assms(1) lim by (simp add: pool_remove_limit)
  then show "fst (pool_add_connection ?q u c)"
    by (simp add: pool_add_connection_def Let_def)
  show "int (get_user_connection_count (snd (pool_add_connection ?q u c)) u) = limit"
    using can q pos full by (simp add: pool_add_count)
qed

lemma three_connections_eq:
  "three_connections =
     \<lparr>max_connections_per_user = 3, pool_user_connections = [1 \<mapsto> [''c1'', ''c2'', ''c3'']]\<rparr>"
  by (simp add: three_connections_def pool_run_def new_pool_def pool_add_connection_def
        can_add_connection_def)

theorem connection_limit_enforced_witness:
  "(0::int) < 3 \<and>
   int (get_user_connection_count three_connections 1) = 3 \<and>
   pool_add_connection three_connections 1 ''c4'' = (False, three_connections) \<and>
   fst (pool_add_connection (pool_remove_connection three_connections 1 ''c1'') 1 ''c4'') \<and>
   pool_user_connections
     (snd (pool_add_connection (pool_remove_connection three_connections 1 ''c1'') 1 ''c4'')) 1 =
     Some [''c2'', ''c3'', ''c4'']"
proof -
  have pos: "(0::int) < 3" by simp
  show ?thesis
    using connection_limit_enforced[OF pos three_connections_def, of 1 "''c4''"]
    by (simp add: three_connections_eq pool_add_connection_def pool_remove_connection_def
          can_add_connection_def get_user_connection_count_def)
qed

text \<open>
  C3 as stated fails for a limit of 0: a user without an entry is admitted whatever the
  limit, so the add at count 0 = limit returns True and the count exceeds the limit.
\<close>

theorem connection_limit_zero_counterexample:
  "get_user_connection_count (new_pool 0 :: (nat, string) connection_pool) 1 = 0 \<and>
   pool_add_connection (new_pool 0) (1::nat) ''c1'' =
     (True, \<lparr>max_connections_per_user = 0, pool_user_connections = [1 \<mapsto> [''c1'']]\<rparr>) \<and>
   get_user_connection_count
     \<lparr>max_connections_per_user = 0, pool_user_connections = [(1::nat) \<mapsto> [''c1'']]\<rparr> 1 = 1"
  by (simp add: new_pool_def pool_add_connection_def can_add_connection_def
        get_user_connection_count_def)

section \<open>Room capacity\<close>

lemma member_count_join:
  "member_count (snd (join_room db rid u now)) r =
     (if r = rid \<and> fst (join_room db rid u now) \<and> \<not> is_member db rid u
      then Suc (member_count db rid) else member_count db r)"
  by (auto simp: join_room_def member_count_def Let_def split: option.splits)

lemma rooms_join: "rooms (snd (join_room db rid u now)) = rooms db"
  by (simp add: join_room_def Let_def split: option.splits)

lemma join_success:
  "fst (join_room db rid u now) \<longleftrightarrow>
     (\<exists>room. rooms db rid = Some room \<and> int (member_count db rid) < max_members room)"
  by (auto simp: join_room_def Let_def split: option.splits)

lemma length_filter_filter_le: "length (filter P (filter Q xs)) \<le> length (filter P xs)"
  by (induction xs) simp_all

lemma member_count_leave: "member_count (leave_room db rid u) r \<le> member_count db r"
proof -
  have "room_members (leave_room db rid u) =
          filter (\<lambda>m. \<not> (member_room m = rid \<and> member_user m = u)) (room_members db)"
    by (simp add: leave_room_def)
  then show ?thesis
    unfolding member_count_def by (simp only: length_filter_filter_le)
qed

lemma bounded_empty: "rooms_bounded empty_room_db"
  by (simp add: rooms_bounded_def empty_room_db_def member_count_def)

lemma bounded_create:
  assumes "rooms_bounded db"
  shows "rooms_bounded (create_room db rid name creator private maxm now)"
  unfolding rooms_bounded_def
proof
  fix r
  have old: "case rooms db r of None \<Rightarrow> member_count db r = 0
             | Some room \<Rightarrow> 0 \<le> max_members room \<longrightarrow> int (member_count db r) \<le> max_members room"
    using assms unfolding rooms_bounded_def by blast
  show "case rooms (create_room db rid name creator private maxm now) r of
          None \<Rightarrow> member_count (create_room db rid name creator private maxm now) r = 0
        | Some room \<Rightarrow> 0 \<le> max_members room \<longrightarrow>
            int (member_count (create_room db rid name creator private maxm now) r)
              \<le> max_members room"
    using old by (auto simp: create_room_def member_count_def split: option.splits)
qed

lemma bounded_join:
  assumes "rooms_bounded db"
  shows "rooms_bounded (snd (join_room db rid u now))"
  unfolding rooms_bounded_def
proof
  fix r
  have old: "case rooms db r of None \<Rightarrow> member_count db r = 0
             | Some room \<Rightarrow> 0 \<le> max_members room \<longrightarrow> int (member_count db r) \<le> max_members room"
    using assms unfolding rooms_bounded_def by blast
  show "case rooms (snd (join_room db rid u now)) r of
          None \<Rightarrow> member_count (snd (join_room db rid u now)) r = 0
        | Some room \<Rightarrow> 0 \<le> max_members room \<longrightarrow>
            int (member_count (snd (join_room db rid u now)) r) \<le> max_members room"
    using old by (auto simp: rooms_join member_count_join join_success split: option.splits)
qed

lemma bounded_leave:
  assumes "rooms_bounded db"
  shows "rooms_bounded (leave_room db rid u)"
  unfolding rooms_bounded_def
proof
  fix r
  have old: "case rooms db r of None \<Rightarrow> member_count db r = 0
             | Some room \<Rightarrow> 0 \<le> max_members room \<longrightarrow> int (member_count db r) \<le> max_members room"
    using assms unfolding rooms_bounded_def by blast
  have le: "member_count (leave_room db rid u) r \<le> member_count db r"
    by (rule member_count_leave)
  have rooms: "rooms (leave_room db rid u) = rooms db" by (simp add: leave_room_def)
  show "case rooms (leave_room db rid u) r of
          None \<Rightarrow> member_count (leave_room db rid u) r = 0
        | Some room \<Rightarrow> 0 \<le> max_members room \<longrightarrow>
            int (member_count (leave_room db rid u) r) \<le> max_members room"
    using old le unfolding rooms by (auto split: option.splits)
qed

lemma bounded_step: "rooms_bounded db \<Longrightarrow> rooms_bounded (room_step db x)"
  by (cases x) (simp_all add: bounded_create bounded_join bounded_leave)

lemma bounded_fold: "rooms_bounded db \<Longrightarrow> rooms_bounded (foldl room_step db ops)"
  by (induction ops arbitrary: db) (simp_all add: bounded_step)

lemma bounded_run: "rooms_bounded (room_run ops)"
  by (simp add: room_run_def bounded_fold bounded_empty)

text \<open>
  C4. After any run of create, join and leave calls from the empty database, a room whose
  \<open>max_members\<close> is not negative never has more members than \<open>max_members\<close>. A join on an
  unknown room fails, changes nothing, and such a room has no member rows. A join on a
  room whose member count has reached \<open>max_members\<close> fails and changes nothing.
\<close>

theorem room_capacity_enforced:
  assumes "db = room_run ops"
  shows "(\<forall>room. rooms db rid = Some room \<and> 0 \<le> max_members room \<longrightarrow>
            int (member_count db rid) \<le> max_members room) \<and>
         (rooms db rid = None \<longrightarrow>
            join_room db rid u now = (False, db) \<and> member_count db rid = 0) \<and>
         (\<forall>room. rooms db rid = Some room \<and> max_members room \<le> int (member_count db rid) \<longrightarrow>
            join_room db rid u now = (False, db))"
proof -
  have "rooms_bounded db" using assms by (simp add: bounded_run)
  then have b: "case rooms db rid of None \<Rightarrow> member_count db rid = 0
      | Some room \<Rightarrow> 0 \<le> max_members room \<longrightarrow> int (member_count db rid) \<le> max_members room"
    unfolding rooms_bounded_def by blast
  show ?thesis
  proof (intro conjI allI impI)
    fix room
    assume "rooms db rid = Some room \<and> 0 \<le> max_members room"
    with b show "int (member_count db rid) \<le> max_members room" by simp
  next
    assume n: "rooms db rid = None"
    then show "join_room db rid u now = (False, db)" by (simp add: join_room_def)
    from n b show "member_count db rid = 0" by simp
  next
    fix room
    assume "rooms db rid = Some room \<and> max_members room \<le> int (member_count db rid)"
    then show "join_room db rid u now = (False, db)" by (simp add: join_room_def)
  qed
qed

lemma full_room_eq:
  "full_room =
     \<lparr>rooms = [''general'' \<mapsto> \<lparr>room_name = ''General'', created_by = 1, is_private = False,
                               max_members = 2, room_created_at = 0\<rparr>],
      room_members = [\<lparr>member_room = ''general'', member_user = 1, joined_at = 1\<rparr>,
                      \<lparr>member_room = ''general'', member_user = 2, joined_at = 2\<rparr>]\<rparr>"
  by (simp add: full_room_def room_run_def empty_room_db_def create_room_def join_room_def
        member_count_def is_member_def)

theorem room_capacity_enforced_witness:
  "member_count full_room ''general'' = 2 \<and>
   join_room full_room ''general'' 3 9 = (False, full_room) \<and>
   rooms full_room ''nowhere'' = None \<and>
   join_room full_room ''nowhere'' 3 9 = (False, full_room)"
  using room_capacity_enforced[OF full_room_def, of "''general''" 3 9]
        room_capacity_enforced[OF full_room_def, of "''nowhere''" 3 9]
  by (simp add: full_room_eq member_count_def)

section \<open>Joining twice\<close>

lemma rejoin_below_capacity:
  assumes "fst (join_room db rid u t1)"
    and "rooms db rid = Some room"
    and "int (member_count (snd (join_room db rid u t1)) rid) < max_members room"
  shows "join_room (snd (join_room db rid u t1)) rid u t2 = (True, snd (join_room db rid u t1))"
proof -
  have m: "is_member (snd (join_room db rid u t1)) rid u"
    using assms(1,2) by (auto simp: join_room_def is_member_def Let_def split: if_splits)
  have r: "rooms (snd (join_room db rid u t1)) rid = Some room"
    using assms(2) by (simp add: rooms_join)
  show ?thesis
    using m r assms(3) by (simp add: join_room_def[of "snd (join_room db rid u t1)"])
qed

text \<open>
  C7 at the failing input: the room \<open>solo\<close> holds one member. User 1 joins (success, one
  member); user 1 joins again and the call reports failure, since the room is full by
  then. The membership rows are unchanged.
\<close>

theorem rejoin_full_room_fails:
  "fst (join_room single_room ''solo'' 1 5) \<and>
   member_count (snd (join_room single_room ''solo'' 1 5)) ''solo'' = 1 \<and>
   join_room (snd (join_room single_room ''solo'' 1 5)) ''solo'' 1 6 =
     (False, snd (join_room single_room ''solo'' 1 5))"
  by (simp add: single_room_def empty_room_db_def create_room_def join_room_def
        member_count_def is_member_def)

section \<open>Validation\<close>







end
